theory Spec2Isabelle
  imports Complex_Main "HOL-Library.Multiset"
begin

section \<open>Python strings\<close>

text \<open>
  The registry works on Python \<open>str\<close> values. They are modelled as HOL strings holding
  ASCII text: \<open>str.lower\<close> maps \<open>A\<close>..\<open>Z\<close> to \<open>a\<close>..\<open>z\<close> and leaves every other
  character alone, and the word characters of the regular expressions (\<open>\w\<close>, which
  decides where \<open>\b\<close> holds) are the ASCII letters, the digits and the underscore.
\<close>

definition upper_letters :: string where
  "upper_letters = ''ABCDEFGHIJKLMNOPQRSTUVWXYZ''"

definition lower_letters :: string where
  "lower_letters = ''abcdefghijklmnopqrstuvwxyz''"

definition digit_chars :: string where
  "digit_chars = ''0123456789''"

definition lower_char :: "char \<Rightarrow> char" where
  "lower_char c = (case map_of (zip upper_letters lower_letters) c of Some d \<Rightarrow> d | None \<Rightarrow> c)"

text \<open>\<open>s.lower()\<close>\<close>

definition lower :: "string \<Rightarrow> string" where
  "lower s = map lower_char s"

text \<open>\<open>s.replace(a, b)\<close> for a one-character pattern \<open>a\<close> and any replacement \<open>b\<close>.\<close>

definition replace_char :: "char \<Rightarrow> string \<Rightarrow> string \<Rightarrow> string" where
  "replace_char a b s = concat (map (\<lambda>c. if c = a then b else [c]) s)"

text \<open>\<open>s.startswith(p)\<close>\<close>

fun startswith :: "string \<Rightarrow> string \<Rightarrow> bool" where
  "startswith s [] = True"
| "startswith [] (p # ps) = False"
| "startswith (c # cs) (p # ps) = (c = p \<and> startswith cs ps)"

text \<open>\<open>needle in s\<close>: \<open>needle\<close> occurs in \<open>s\<close> as a contiguous substring.\<close>

fun str_contains :: "string \<Rightarrow> string \<Rightarrow> bool" where
  "str_contains [] needle = (needle = [])"
| "str_contains (c # cs) needle = (startswith (c # cs) needle \<or> str_contains cs needle)"

text \<open>\<open>sep.join(xs)\<close>\<close>

fun join :: "string \<Rightarrow> string list \<Rightarrow> string" where
  "join sep [] = []"
| "join sep [x] = x"
| "join sep (x # y # ys) = x @ sep @ join sep (y # ys)"

subsection \<open>The tokenizer\<close>

definition is_lower_az :: "char \<Rightarrow> bool" where
  "is_lower_az c = (c \<in> set lower_letters)"

definition is_word_char :: "char \<Rightarrow> bool" where
  "is_word_char c = (c \<in> set (lower_letters @ upper_letters @ digit_chars @ ''_''))"

text \<open>
  The maximal runs of word characters of a text, from left to right. The first argument
  is the run being read.
\<close>

fun word_runs :: "string \<Rightarrow> string \<Rightarrow> string list" where
  "word_runs cur [] = (if cur = [] then [] else [cur])"
| "word_runs cur (c # cs) =
     (if is_word_char c then word_runs (cur @ [c]) cs
      else (if cur = [] then [] else [cur]) @ word_runs [] cs)"

text \<open>
  \<open>re.findall(r'\b[a-z]{n,}\b', s)\<close>. A match starts at a word boundary, takes lowercase
  letters and must end at a word boundary; giving letters back never helps, since the
  position between two letters is no boundary. So the matches are the maximal runs of
  word characters that hold lowercase letters only and at least \<open>n\<close> of them.
\<close>

definition findall_az :: "nat \<Rightarrow> string \<Rightarrow> string list" where
  "findall_az n s = filter (\<lambda>w. n \<le> length w \<and> list_all is_lower_az w) (word_runs [] s)"

section \<open>Skill records\<close>

text \<open>The dataclass \<open>RemoteSkill\<close>.\<close>

record RemoteSkill =
  name :: string
  description :: string
  source :: string
  url :: string
  category :: string
  keywords' :: "string list"
  readme_url :: string
  skill_md_url :: string

section \<open>The scorer\<close>

text \<open>
  \<open>ExternalRegistry._calculate_score\<close>. The query tokens are a Python set; its size and
  its intersections do not depend on the order of its elements, but
  \<open>' '.join(query_tokens)\<close> does, and Python leaves that order open. The model takes the
  tokens as the list in which the set is iterated and reads the set off that list.
  Floats are idealised as rationals.
\<close>

definition calculate_score :: "string list \<Rightarrow> RemoteSkill \<Rightarrow> rat" where
  "calculate_score query_tokens skill =
     (let name_tokens = set (findall_az 2 (replace_char (CHR ''-'') '' '' (lower (name skill))));
          desc_tokens = set (findall_az 2 (lower (description skill)));
          keyword_set = set (keywords' skill);
          name_overlap = card (set query_tokens \<inter> name_tokens);
          desc_overlap = card (set query_tokens \<inter> desc_tokens);
          keyword_overlap = card (set query_tokens \<inter> keyword_set);
          name_score = of_nat name_overlap / of_nat (max (card name_tokens) 1) * 1;
          desc_score = of_nat desc_overlap / of_nat (max (card (set query_tokens)) 1) * (7 / 10);
          keyword_score = of_nat keyword_overlap / of_nat (max (card (set query_tokens)) 1) * (5 / 10);
          query_str = join '' '' query_tokens;
          name_score2 =
            (if replace_char (CHR ''-'') '' '' (lower (name skill)) = query_str
                \<or> str_contains query_str (lower (name skill))
             then 1 else name_score);
          total = name_score2 + desc_score + keyword_score
      in min (total / (22 / 10)) 1)"

text \<open>
  The formula of section 4.5 of the specification, word for word, with the name whose
  occurrence in the joined query forces the name score left as a parameter: the
  specification takes the hyphen-to-space-normalized name there.
\<close>

definition score_formula :: "string \<Rightarrow> string list \<Rightarrow> RemoteSkill \<Rightarrow> rat" where
  "score_formula needle query_tokens skill =
     (let normalized_name = replace_char (CHR ''-'') '' '' (lower (name skill));
          name_tokens = set (findall_az 2 normalized_name);
          desc_tokens = set (findall_az 2 (lower (description skill)));
          keyword_set = set (keywords' skill);
          joined = join '' '' query_tokens;
          name_score =
            (if joined = normalized_name \<or> str_contains joined needle then 1
             else of_nat (card (set query_tokens \<inter> name_tokens)) / of_nat (max (card name_tokens) 1));
          desc_score = of_nat (card (set query_tokens \<inter> desc_tokens)) / of_nat (max (card (set query_tokens)) 1);
          keyword_score = of_nat (card (set query_tokens \<inter> keyword_set)) / of_nat (max (card (set query_tokens)) 1)
      in min ((name_score + desc_score * (7 / 10) + keyword_score * (5 / 10)) / (22 / 10)) 1)"

definition spec_score :: "string list \<Rightarrow> RemoteSkill \<Rightarrow> rat" where
  "spec_score query_tokens skill =
     score_formula (replace_char (CHR ''-'') '' '' (lower (name skill))) query_tokens skill"

text \<open>The share of the query tokens found in a token set, as both ratios of the scorer use it.\<close>

definition query_ratio :: "string list \<Rightarrow> string set \<Rightarrow> rat" where
  "query_ratio query_tokens toks =
     of_nat (card (set query_tokens \<inter> toks)) / of_nat (max (card (set query_tokens)) 1)"

section \<open>The categorizer\<close>

text \<open>
  The dictionary \<open>categories\<close> of \<open>ExternalRegistry._categorize\<close>. A Python dictionary
  is iterated in the order its keys were written, so it is a list of pairs.
\<close>

definition categories :: "(string \<times> string list) list" where
  "categories =
     [(''document-processing'', [''docx'', ''pdf'', ''pptx'', ''xlsx'', ''document'', ''spreadsheet'', ''word'', ''excel'']),
      (''development'', [''code'', ''git'', ''debug'', ''test'', ''build'', ''deploy'', ''api'', ''mcp'', ''plugin'']),
      (''data-analysis'', [''data'', ''csv'', ''analyze'', ''chart'', ''visualization'', ''query'', ''database'']),
      (''creative'', [''design'', ''image'', ''art'', ''canvas'', ''gif'', ''video'', ''theme'', ''brand'']),
      (''communication'', [''email'', ''slack'', ''meeting'', ''write'', ''content'', ''comms'']),
      (''productivity'', [''organize'', ''file'', ''invoice'', ''calendar'', ''task'', ''workflow'', ''automate'']),
      (''research'', [''research'', ''search'', ''web'', ''scrape'', ''extract'']),
      (''security'', [''security'', ''forensic'', ''threat'', ''vulnerability'', ''audit''])]"

text \<open>\<open>any(kw in text for kw in keywords)\<close>\<close>

definition any_keyword_in :: "string \<Rightarrow> string list \<Rightarrow> bool" where
  "any_keyword_in txt kws = list_ex (\<lambda>kw. str_contains txt kw) kws"

text \<open>The loop over \<open>categories.items()\<close>, returning at the first category that matches.\<close>

fun categorize_loop :: "string \<Rightarrow> (string \<times> string list) list \<Rightarrow> string" where
  "categorize_loop txt [] = ''general''"
| "categorize_loop txt ((cat, kws) # rest) =
     (if any_keyword_in txt kws then cat else categorize_loop txt rest)"

definition categorize :: "string \<Rightarrow> string \<Rightarrow> string" where
  "categorize nm descr = categorize_loop (lower (nm @ '' '' @ descr)) categories"

text \<open>The nine categories a record can carry after categorization.\<close>

definition category_names :: "string list" where
  "category_names = map fst categories @ [''general'']"

section \<open>The keyword extractor\<close>

definition stopwords :: "string list" where
  "stopwords =
     [''the'', ''a'', ''an'', ''is'', ''are'', ''was'', ''were'', ''be'', ''been'',
      ''have'', ''has'', ''had'', ''do'', ''does'', ''did'', ''will'', ''would'',
      ''to'', ''of'', ''in'', ''for'', ''on'', ''with'', ''at'', ''by'', ''from'',
      ''and'', ''but'', ''if'', ''or'', ''this'', ''that'', ''use'', ''using'',
      ''claude'', ''skill'', ''skills'', ''can'', ''your'', ''you'']"

text \<open>
  The loop of \<open>ExternalRegistry._extract_keywords\<close> over the words, with the set \<open>seen\<close>
  and the list \<open>keywords\<close> it builds; it stops at fifteen keywords.
\<close>

fun extract_loop :: "string list \<Rightarrow> string set \<Rightarrow> string list \<Rightarrow> string list" where
  "extract_loop [] seen kws = kws"
| "extract_loop (w # ws) seen kws =
     (if w \<notin> set stopwords \<and> w \<notin> seen
      then (if length (kws @ [w]) \<ge> 15 then kws @ [w]
            else extract_loop ws (insert w seen) (kws @ [w]))
      else extract_loop ws seen kws)"

definition extract_keywords :: "string \<Rightarrow> string list" where
  "extract_keywords txt = extract_loop (findall_az 3 (lower txt)) {} []"

section \<open>Searching the remote index\<close>

text \<open>
  A Python dictionary with string keys, in insertion order: \<open>d[k] = v\<close> replaces the value
  of a key that is present where it stands and appends a new key at the end.
\<close>

type_synonym 'v pydict = "(string \<times> 'v) list"

fun dict_set :: "'v pydict \<Rightarrow> string \<Rightarrow> 'v \<Rightarrow> 'v pydict" where
  "dict_set [] k v = [(k, v)]"
| "dict_set ((k', v') # rest) k v =
     (if k' = k then (k, v) # rest else (k', v') # dict_set rest k v)"

definition dict_get :: "'v pydict \<Rightarrow> string \<Rightarrow> 'v option" where
  "dict_get d k = map_of d k"

definition dict_values :: "'v pydict \<Rightarrow> 'v list" where
  "dict_values d = map snd d"

text \<open>
  A result dictionary, as \<open>search\<close> builds it and \<open>recommend\<close> reads it. A key that is
  absent is \<open>None\<close>: the results of the local registry (the module \<open>skill_registry\<close>,
  which is not modelled) may lack any of them.
\<close>

record search_result =
  r_name :: "string option"
  r_score :: "rat option"
  r_description :: "string option"
  r_category :: "string option"
  r_source :: "string option"
  r_url :: "string option"
  r_path :: "string option"
  r_skill_md_url :: "string option"
  r_installed :: "bool option"

text \<open>
  \<open>round(x, 3)\<close>: the nearest multiple of a thousandth, a tie going to the even one.
\<close>

definition round3 :: "rat \<Rightarrow> rat" where
  "round3 x =
     (let n = \<lfloor>x * 1000\<rfloor>; f = x * 1000 - of_int n
      in of_int (if f < 1 / 2 then n else if 1 / 2 < f then n + 1
                 else if even n then n else n + 1) / 1000)"

text \<open>\<open>xs[:n]\<close> for an integer \<open>n\<close>: a negative \<open>n\<close> counts from the end.\<close>

definition slice_to :: "int \<Rightarrow> 'a list \<Rightarrow> 'a list" where
  "slice_to n xs = (if 0 \<le> n then take (nat n) xs else take (length xs - nat (- n)) xs)"

text \<open>
  \<open>x.get("score", 0)\<close>, and \<open>xs.sort(key=..., reverse=True)\<close> on the scores: descending,
  and stable, so results of equal score keep their order.
\<close>

definition result_score :: "search_result \<Rightarrow> rat" where
  "result_score r = (case r_score r of Some x \<Rightarrow> x | None \<Rightarrow> 0)"

definition sort_by_score_desc :: "search_result list \<Rightarrow> search_result list" where
  "sort_by_score_desc rs = sort_key (\<lambda>r. - result_score r) rs"

text \<open>The dictionary \<open>search\<close> appends for a skill that reaches the threshold.\<close>

definition result_of_skill :: "rat \<Rightarrow> RemoteSkill \<Rightarrow> search_result" where
  "result_of_skill score skill =
     \<lparr>r_name = Some (name skill),
      r_score = Some (round3 score),
      r_description = Some (take 200 (description skill)),
      r_category = Some (category skill),
      r_source = Some (source skill),
      r_url = Some (url skill),
      r_path = None,
      r_skill_md_url = Some (skill_md_url skill),
      r_installed = None\<rparr>"

text \<open>The loop of \<open>ExternalRegistry.search\<close> over \<open>self.skills.values()\<close>.\<close>

fun score_skills :: "string list \<Rightarrow> rat \<Rightarrow> RemoteSkill list \<Rightarrow> search_result list" where
  "score_skills query_tokens threshold [] = []"
| "score_skills query_tokens threshold (skill # rest) =
     (let score = calculate_score query_tokens skill
      in (if score \<ge> threshold then [result_of_skill score skill] else [])
         @ score_skills query_tokens threshold rest)"

text \<open>
  \<open>ExternalRegistry.search\<close> once the index is loaded. \<open>set_order\<close> lists the elements of
  the set built from the words of the query in the order Python iterates it.
\<close>

definition search_loaded ::
  "(string list \<Rightarrow> string list) \<Rightarrow> RemoteSkill pydict \<Rightarrow> string \<Rightarrow> int \<Rightarrow> rat \<Rightarrow> search_result list" where
  "search_loaded set_order skills_dict query top_n threshold =
     (let found = findall_az 2 (lower query);
          query_tokens = set_order found
      in if found = [] then []
         else slice_to top_n
                (sort_by_score_desc (score_skills query_tokens threshold (dict_values skills_dict))))"

section \<open>Timestamps\<close>

text \<open>
  The cache is stamped with \<open>datetime.now(timezone.utc).isoformat() + "Z"\<close> and the stamp
  is read back with \<open>datetime.fromisoformat\<close>. Both belong to Python's library; they are
  modelled after its reference implementation (\<open>Lib/datetime.py\<close>, Python 3.7 to 3.10),
  whose format is \<open>YYYY-MM-DD*HH[:MM[:SS[.fff[fff]]]][+HH:MM[:SS[.ffffff]]]\<close>. Later
  versions read more formats; none reads a time followed by two offsets.
\<close>

record datetime =
  year :: int
  month :: int
  day :: int
  hour :: int
  minute :: int
  second :: int
  microsecond :: int

text \<open>
  \<open>n\<close> in decimal, padded with zeros to \<open>w\<close> digits (\<open>'%0wd'\<close>, for \<open>n\<close> from 0 to below
  \<open>10 ^ w\<close>).
\<close>

fun zpad :: "nat \<Rightarrow> int \<Rightarrow> string" where
  "zpad 0 n = []"
| "zpad (Suc w) n = zpad w (n div 10) @ [digit_chars ! nat (n mod 10)]"

text \<open>\<open>isoformat()\<close> of a datetime whose time zone is UTC: the offset is part of the text.\<close>

definition isoformat_utc :: "datetime \<Rightarrow> string" where
  "isoformat_utc dt =
     zpad 4 (year dt) @ ''-'' @ zpad 2 (month dt) @ ''-'' @ zpad 2 (day dt) @ ''T''
     @ zpad 2 (hour dt) @ '':'' @ zpad 2 (minute dt) @ '':'' @ zpad 2 (second dt)
     @ (if microsecond dt \<noteq> 0 then ''.'' @ zpad 6 (microsecond dt) else [])
     @ ''+00:00''"

text \<open>\<open>int(s)\<close> for a text of decimal digits; \<open>None\<close> is its \<open>ValueError\<close>.\<close>

fun digit_value :: "char \<Rightarrow> int option" where
  "digit_value c =
     (if c \<in> set digit_chars then Some (int (length (takeWhile (\<lambda>d. d \<noteq> c) digit_chars))) else None)"

fun parse_nat_acc :: "int \<Rightarrow> string \<Rightarrow> int option" where
  "parse_nat_acc acc [] = Some acc"
| "parse_nat_acc acc (c # cs) =
     (case digit_value c of None \<Rightarrow> None | Some d \<Rightarrow> parse_nat_acc (10 * acc + d) cs)"

definition parse_nat :: "string \<Rightarrow> int option" where
  "parse_nat s = (if s = [] then None else parse_nat_acc 0 s)"

text \<open>\<open>s[i:j]\<close> for \<open>0 \<le> i \<le> j\<close>.\<close>

definition substr :: "string \<Rightarrow> nat \<Rightarrow> nat \<Rightarrow> string" where
  "substr s i j = take (j - i) (drop i s)"

text \<open>\<open>_parse_isoformat_date\<close>, on the first ten characters.\<close>

definition parse_isoformat_date :: "string \<Rightarrow> (int \<times> int \<times> int) option" where
  "parse_isoformat_date dtstr =
     (case parse_nat (substr dtstr 0 4) of None \<Rightarrow> None | Some y \<Rightarrow>
        if substr dtstr 4 5 \<noteq> ''-'' then None else
        (case parse_nat (substr dtstr 5 7) of None \<Rightarrow> None | Some m \<Rightarrow>
           if substr dtstr 7 8 \<noteq> ''-'' then None else
           (case parse_nat (substr dtstr 8 10) of None \<Rightarrow> None | Some d \<Rightarrow> Some (y, m, d))))"

text \<open>
  \<open>_parse_hh_mm_ss_ff\<close>: the loop over the three two-digit components, then the
  fraction. \<open>cnt\<close> counts the components read so far; the result lists hour, minute,
  second and microsecond.
\<close>

fun parse_hms :: "nat \<Rightarrow> nat \<Rightarrow> string \<Rightarrow> (int list \<times> string) option" where
  "parse_hms 0 cnt rest = Some ([], rest)"
| "parse_hms (Suc fuel) cnt rest =
     (if length rest < 2 then None
      else (case parse_nat (take 2 rest) of None \<Rightarrow> None | Some v \<Rightarrow>
        let rest2 = drop 2 rest in
        if rest2 = [] \<or> cnt \<ge> 2 then Some ([v], rest2)
        else if hd rest2 \<noteq> CHR '':'' then None
        else (case parse_hms fuel (Suc cnt) (tl rest2) of None \<Rightarrow> None
              | Some (vs, r) \<Rightarrow> Some (v # vs, r))))"

definition parse_hh_mm_ss_ff :: "string \<Rightarrow> (int \<times> int \<times> int \<times> int) option" where
  "parse_hh_mm_ss_ff tstr =
     (case parse_hms 3 0 tstr of None \<Rightarrow> None | Some (vs, rest) \<Rightarrow>
        let comps = vs @ replicate (3 - length vs) 0 in
        if rest = [] then Some (comps ! 0, comps ! 1, comps ! 2, 0)
        else if hd rest \<noteq> CHR ''.'' then None
        else if length (tl rest) \<notin> {3, 6} then None
        else (case parse_nat (tl rest) of None \<Rightarrow> None | Some f \<Rightarrow>
                Some (comps ! 0, comps ! 1, comps ! 2, if length (tl rest) = 3 then f * 1000 else f)))"

text \<open>\<open>s.find(c)\<close>: the index of the first \<open>c\<close>, if there is one.\<close>

definition find_char :: "char \<Rightarrow> string \<Rightarrow> nat option" where
  "find_char c s = (if c \<in> set s then Some (length (takeWhile (\<lambda>d. d \<noteq> c) s)) else None)"

text \<open>
  \<open>_parse_isoformat_time\<close>: the time, and the offset from UTC in microseconds when the
  text has one. The offset starts at the first \<open>-\<close>, or else at the first \<open>+\<close>.
\<close>

definition parse_isoformat_time :: "string \<Rightarrow> ((int \<times> int \<times> int \<times> int) \<times> int option) option" where
  "parse_isoformat_time tstr =
     (if length tstr < 2 then None
      else
        let tz_pos = (case find_char (CHR ''-'') tstr of Some i \<Rightarrow> Some i
                      | None \<Rightarrow> find_char (CHR ''+'') tstr);
            timestr = (case tz_pos of None \<Rightarrow> tstr | Some i \<Rightarrow> take i tstr)
        in (case parse_hh_mm_ss_ff timestr of None \<Rightarrow> None | Some time_comps \<Rightarrow>
              (case tz_pos of None \<Rightarrow> Some (time_comps, None)
               | Some i \<Rightarrow>
                   let tzstr = drop (Suc i) tstr in
                   if length tzstr \<notin> {5, 8, 15} then None
                   else (case parse_hh_mm_ss_ff tzstr of None \<Rightarrow> None
                         | Some (h, m, s, us) \<Rightarrow>
                             let td = ((h * 60 + m) * 60 + s) * 1000000 + us
                             in Some (time_comps,
                                      Some (if tstr ! i = CHR ''-'' then - td else td))))))"

definition is_leap :: "int \<Rightarrow> bool" where
  "is_leap y = (y mod 4 = 0 \<and> (y mod 100 \<noteq> 0 \<or> y mod 400 = 0))"

text \<open>The tables \<open>_DAYS_IN_MONTH\<close> and \<open>_DAYS_BEFORE_MONTH\<close>, by month.\<close>

definition days_in_month_table :: "(int \<times> int) list" where
  "days_in_month_table =
     [(1, 31), (2, 28), (3, 31), (4, 30), (5, 31), (6, 30),
      (7, 31), (8, 31), (9, 30), (10, 31), (11, 30), (12, 31)]"

definition days_before_month_table :: "(int \<times> int) list" where
  "days_before_month_table =
     [(1, 0), (2, 31), (3, 59), (4, 90), (5, 120), (6, 151),
      (7, 181), (8, 212), (9, 243), (10, 273), (11, 304), (12, 334)]"

definition days_in_month :: "int \<Rightarrow> int \<Rightarrow> int" where
  "days_in_month y m =
     (if m = 2 \<and> is_leap y then 29
      else (case map_of days_in_month_table m of Some n \<Rightarrow> n | None \<Rightarrow> 0))"

text \<open>The checks of the \<open>datetime\<close> constructor; a field out of range is a \<open>ValueError\<close>.\<close>

definition valid_datetime :: "datetime \<Rightarrow> bool" where
  "valid_datetime dt =
     (1 \<le> year dt \<and> year dt \<le> 9999 \<and> 1 \<le> month dt \<and> month dt \<le> 12
      \<and> 1 \<le> day dt \<and> day dt \<le> days_in_month (year dt) (month dt)
      \<and> 0 \<le> hour dt \<and> hour dt < 24 \<and> 0 \<le> minute dt \<and> minute dt < 60
      \<and> 0 \<le> second dt \<and> second dt < 60 \<and> 0 \<le> microsecond dt \<and> microsecond dt < 1000000)"

text \<open>
  \<open>datetime.fromisoformat\<close>: \<open>None\<close> is its \<open>ValueError\<close>; the result is the datetime and
  its offset from UTC in microseconds, \<open>None\<close> for a naive datetime. An offset must lie
  strictly within a day.
\<close>

definition fromisoformat :: "string \<Rightarrow> (datetime \<times> int option) option" where
  "fromisoformat date_string =
     (case parse_isoformat_date (take 10 date_string) of None \<Rightarrow> None
      | Some (y, m, d) \<Rightarrow>
          (case (if drop 11 date_string = [] then Some ((0, 0, 0, 0), None)
                 else parse_isoformat_time (drop 11 date_string)) of None \<Rightarrow> None
           | Some ((hh, mm, ss, us), tz) \<Rightarrow>
               let dt = \<lparr>year = y, month = m, day = d, hour = hh, minute = mm,
                         second = ss, microsecond = us\<rparr>
               in if valid_datetime dt
                     \<and> (case tz of None \<Rightarrow> True | Some off \<Rightarrow> \<bar>off\<bar> < 86400 * 1000000)
                  then Some (dt, tz) else None))"

text \<open>The days before a year and before a month, and the microseconds a datetime counts.\<close>

definition days_before_year :: "int \<Rightarrow> int" where
  "days_before_year y = (y - 1) * 365 + (y - 1) div 4 - (y - 1) div 100 + (y - 1) div 400"

definition days_before_month :: "int \<Rightarrow> int \<Rightarrow> int" where
  "days_before_month y m =
     (case map_of days_before_month_table m of Some n \<Rightarrow> n | None \<Rightarrow> 0)
     + (if 2 < m \<and> is_leap y then 1 else 0)"

definition to_microseconds :: "datetime \<Rightarrow> int" where
  "to_microseconds dt =
     ((((days_before_year (year dt) + days_before_month (year dt) (month dt) + day dt) * 24
        + hour dt) * 60 + minute dt) * 60 + second dt) * 1000000
     + microsecond dt"

section \<open>Manifests\<close>

text \<open>
  \<open>s.split(sep, 1)\<close> where \<open>sep\<close> occurs in \<open>s\<close>: the text before the first occurrence and
  the text after it; \<open>None\<close> where \<open>sep\<close> does not occur. \<open>sep\<close> is never empty here.
\<close>

fun split_once :: "string \<Rightarrow> string \<Rightarrow> (string \<times> string) option" where
  "split_once sep [] = None"
| "split_once sep (c # cs) =
     (if startswith (c # cs) sep then Some ([], drop (length sep) (c # cs))
      else (case split_once sep cs of None \<Rightarrow> None | Some (a, b) \<Rightarrow> Some (c # a, b)))"

text \<open>\<open>s.split(sep, 2)\<close>: at most three parts.\<close>

definition split_twice :: "string \<Rightarrow> string \<Rightarrow> string list" where
  "split_twice sep s =
     (case split_once sep s of None \<Rightarrow> [s]
      | Some (a, r) \<Rightarrow> (case split_once sep r of None \<Rightarrow> [a, r] | Some (b, c) \<Rightarrow> [a, b, c]))"

text \<open>\<open>s.split(c)\<close> for a one-character separator: every part, the empty ones too.\<close>

fun split_char :: "char \<Rightarrow> string \<Rightarrow> string list" where
  "split_char d [] = [[]]"
| "split_char d (c # cs) =
     (if c = d then [] # split_char d cs
      else (case split_char d cs of [] \<Rightarrow> [[c]] | x # xs \<Rightarrow> (c # x) # xs))"

text \<open>\<open>s.strip(chars)\<close>, and \<open>s.strip()\<close> with the ASCII characters Python counts as space.\<close>

definition strip_chars :: "string \<Rightarrow> string \<Rightarrow> string" where
  "strip_chars chars s = rev (dropWhile (\<lambda>c. c \<in> set chars) (rev (dropWhile (\<lambda>c. c \<in> set chars) s)))"

definition whitespace :: string where
  "whitespace = [CHR 0x09, CHR 0x0A, CHR 0x0B, CHR 0x0C, CHR 0x0D,
                 CHR 0x1C, CHR 0x1D, CHR 0x1E, CHR 0x1F, CHR 0x20]"

definition strip :: "string \<Rightarrow> string" where
  "strip s = strip_chars whitespace s"

text \<open>
  The loop of \<open>ExternalRegistry._parse_skill_frontmatter\<close> over the lines, carrying
  \<open>name\<close> and \<open>description\<close>.
\<close>

fun frontmatter_loop :: "string list \<Rightarrow> string option \<times> string option \<Rightarrow> string option \<times> string option" where
  "frontmatter_loop [] acc = acc"
| "frontmatter_loop (line # rest) (nm, descr) =
     (case split_once '':'' line of
        None \<Rightarrow> frontmatter_loop rest (nm, descr)
      | Some (k, v) \<Rightarrow>
          let key = lower (strip k);
              val = strip_chars [CHR 0x27] (strip_chars [CHR 0x22] (strip v))
          in if key = ''name'' then frontmatter_loop rest (Some val, descr)
             else if key = ''description'' then frontmatter_loop rest (nm, Some val)
             else frontmatter_loop rest (nm, descr))"

definition parse_skill_frontmatter :: "string \<Rightarrow> string option \<times> string option" where
  "parse_skill_frontmatter content =
     (if \<not> startswith content ''---'' then (None, None)
      else let parts = split_twice ''---'' content
           in if length parts < 3 then (None, None)
              else frontmatter_loop (split_char (CHR 0x0A) (strip (parts ! 1))) (None, None))"

section \<open>Registries and the world outside\<close>

text \<open>
  A registry dictionary. \<open>branch\<close> and \<open>priority\<close> are read with a default, so they may be
  absent.
\<close>

record registry =
  reg_name :: string
  reg_type :: string
  owner :: string
  repo :: string
  branch :: "string option"
  reg_url :: string
  priority :: "int option"

definition KNOWN_REGISTRIES :: "registry list" where
  "KNOWN_REGISTRIES =
     [\<lparr>reg_name = ''awesome-claude-skills'', reg_type = ''github'', owner = ''ComposioHQ'',
       repo = ''awesome-claude-skills'', branch = Some ''master'',
       reg_url = ''https://github.com/ComposioHQ/awesome-claude-skills'', priority = Some 1\<rparr>,
      \<lparr>reg_name = ''anthropic-skills'', reg_type = ''github'', owner = ''anthropics'',
       repo = ''skills'', branch = Some ''main'',
       reg_url = ''https://github.com/anthropics/skills'', priority = Some 2\<rparr>]"

text \<open>
  What a file holds, read as JSON: no file, a text that is not JSON, or the decoded
  value. The values are taken well-typed: strings where the code expects strings.
\<close>

datatype 'a json_file = NoFile | NotJson | Json 'a

text \<open>The cache envelope. \<open>updated\<close> and \<open>skills\<close> are read with a default.\<close>

record cache_data =
  version :: string
  updated :: "string option"
  skill_count :: nat
  cached_skills :: "RemoteSkill list option"

text \<open>
  An entry of the bundled index: something that is no dictionary, or a dictionary whose
  keys may each be absent.
\<close>

record bundled_skill =
  b_name :: "string option"
  b_description :: "string option"
  b_source :: "string option"
  b_url :: "string option"
  b_category :: "string option"
  b_keywords :: "string list option"
  b_skill_md_url :: "string option"

datatype bundled_entry = NotADict | Dict bundled_skill

text \<open>
  The world a registry runs in: the clock, the cache file, the files at the three places
  a bundled index is looked for (each holding the entries under \<open>skills\<close>, if that key
  is there), and the network. \<open>fetch_url\<close> is \<open>ExternalRegistry._fetch_url\<close>, \<open>None\<close> where
  the request fails; \<open>loads_listing\<close> is \<open>json.loads\<close> on a directory listing, giving the
  name and the type of each item, \<open>None\<close> where the decoding or the reading of these two
  keys fails.
\<close>

record world =
  now :: datetime
  cache_file :: "cache_data json_file"
  bundled_files :: "bundled_entry list option json_file list"
  fetch_url :: "string \<Rightarrow> string option"
  loads_listing :: "string \<Rightarrow> (string \<times> string) list option"

text \<open>The state of an \<open>ExternalRegistry\<close>.\<close>

record ExternalRegistry =
  skills :: "RemoteSkill pydict"
  registries :: "registry list"
  index_loaded :: bool

datatype py_error = TypeError | KeyError

text \<open>\<open>ExternalRegistry.__init__\<close>\<close>

definition init_registry :: ExternalRegistry where
  "init_registry = \<lparr>skills = [], registries = KNOWN_REGISTRIES, index_loaded = False\<rparr>"

text \<open>\<open>ExternalRegistry.add_registry\<close>\<close>

definition add_registry :: "ExternalRegistry \<Rightarrow> string \<Rightarrow> string \<Rightarrow> string \<Rightarrow> string \<Rightarrow> int \<Rightarrow> ExternalRegistry" where
  "add_registry st nm own rp br prio =
     st\<lparr>registries := registries st @
          [\<lparr>reg_name = nm, reg_type = ''github'', owner = own, repo = rp, branch = Some br,
            reg_url = ''https://github.com/'' @ own @ ''/'' @ rp, priority = Some prio\<rparr>]\<rparr>"

section \<open>Building the remote index\<close>

text \<open>\<open>ExternalRegistry._parse_github_tree\<close>\<close>

definition parse_github_tree :: "world \<Rightarrow> string \<Rightarrow> string \<Rightarrow> string \<Rightarrow> string list" where
  "parse_github_tree w own rp br =
     (case fetch_url w (''https://api.github.com/repos/'' @ own @ ''/'' @ rp @ ''/contents?ref='' @ br) of
        None \<Rightarrow> []
      | Some content \<Rightarrow>
          if content = [] then []
          else (case loads_listing w content of
                  None \<Rightarrow> []
                | Some items \<Rightarrow>
                    map fst (filter (\<lambda>(item_name, item_type).
                                       item_type = ''dir'' \<and> \<not> startswith item_name ''.'') items)))"

text \<open>\<open>ExternalRegistry._fetch_skill_md\<close>\<close>

definition skill_md_address :: "string \<Rightarrow> string \<Rightarrow> string \<Rightarrow> string \<Rightarrow> string" where
  "skill_md_address own rp br skill_name =
     ''https://raw.githubusercontent.com/'' @ own @ ''/'' @ rp @ ''/'' @ br @ ''/'' @ skill_name @ ''/SKILL.md''"

definition fetch_skill_md :: "world \<Rightarrow> string \<Rightarrow> string \<Rightarrow> string \<Rightarrow> string \<Rightarrow> string option" where
  "fetch_skill_md w own rp skill_name br = fetch_url w (skill_md_address own rp br skill_name)"

definition skipped_directories :: "string list" where
  "skipped_directories = [''docs'', ''examples'', ''tests'', ''.github'', ''scripts'', ''assets'']"

text \<open>\<open>x or y\<close> on an optional text: \<open>y\<close> where \<open>x\<close> is \<open>None\<close> or empty.\<close>

definition or_else :: "string option \<Rightarrow> string \<Rightarrow> string" where
  "or_else x y = (case x of None \<Rightarrow> y | Some v \<Rightarrow> if v = [] then y else v)"

text \<open>
  The body of the loop of \<open>ExternalRegistry._index_github_registry\<close> up to the record it
  builds for one directory: \<open>None\<close> where the directory is skipped, its manifest cannot
  be fetched or is empty, or the manifest gives no name.
\<close>

definition skill_of_directory :: "world \<Rightarrow> registry \<Rightarrow> string \<Rightarrow> RemoteSkill option" where
  "skill_of_directory w reg dir_name =
     (let br = (case branch reg of None \<Rightarrow> ''master'' | Some b \<Rightarrow> b)
      in if dir_name \<in> set skipped_directories then None
         else (case fetch_skill_md w (owner reg) (repo reg) dir_name br of
                 None \<Rightarrow> None
               | Some skill_content \<Rightarrow>
                   if skill_content = [] then None
                   else (case parse_skill_frontmatter skill_content of
                           (None, descr) \<Rightarrow> None
                         | (Some nm, descr) \<Rightarrow>
                             if nm = [] then None
                             else Some \<lparr>name = nm,
                                        description = or_else descr (''Skill from '' @ reg_name reg),
                                        source = reg_name reg,
                                        url = reg_url reg @ ''/tree/'' @ br @ ''/'' @ dir_name,
                                        category = categorize nm (or_else descr []),
                                        keywords' = extract_keywords (nm @ '' '' @ or_else descr []),
                                        readme_url = [],
                                        skill_md_url = skill_md_address (owner reg) (repo reg) br dir_name\<rparr>)))"

text \<open>The loop over the directories: a record enters the index only under a new name.\<close>

fun index_directories :: "world \<Rightarrow> registry \<Rightarrow> string list \<Rightarrow> RemoteSkill pydict \<Rightarrow> RemoteSkill pydict" where
  "index_directories w reg [] d = d"
| "index_directories w reg (dir_name # rest) d =
     (case skill_of_directory w reg dir_name of
        None \<Rightarrow> index_directories w reg rest d
      | Some skill \<Rightarrow>
          if dict_get d (name skill) = None
          then index_directories w reg rest (dict_set d (name skill) skill)
          else index_directories w reg rest d)"

text \<open>\<open>ExternalRegistry._index_github_registry\<close>, as it changes \<open>self.skills\<close>.\<close>

definition index_github_registry :: "world \<Rightarrow> RemoteSkill pydict \<Rightarrow> registry \<Rightarrow> RemoteSkill pydict" where
  "index_github_registry w d reg =
     index_directories w reg
       (parse_github_tree w (owner reg) (repo reg) (case branch reg of None \<Rightarrow> ''master'' | Some b \<Rightarrow> b)) d"

text \<open>
  The loop of \<open>load_index\<close> over \<open>sorted(self.registries, key=lambda r: r.get("priority", 99))\<close>;
  the sort is stable.
\<close>

definition priority_of :: "registry \<Rightarrow> int" where
  "priority_of reg = (case priority reg of None \<Rightarrow> 99 | Some p \<Rightarrow> p)"

fun index_registries :: "world \<Rightarrow> registry list \<Rightarrow> RemoteSkill pydict \<Rightarrow> RemoteSkill pydict" where
  "index_registries w [] d = d"
| "index_registries w (reg # rest) d =
     (if reg_type reg = ''github'' then index_registries w rest (index_github_registry w d reg)
      else index_registries w rest d)"

definition refresh_from_registries :: "world \<Rightarrow> registry list \<Rightarrow> RemoteSkill pydict \<Rightarrow> RemoteSkill pydict" where
  "refresh_from_registries w regs d = index_registries w (sort_key priority_of regs) d"

section \<open>The cache and the bundled index\<close>

text \<open>\<open>ExternalRegistry._save_cache\<close>, as it changes the cache file.\<close>

definition save_cache :: "world \<Rightarrow> RemoteSkill pydict \<Rightarrow> world" where
  "save_cache w d =
     w\<lparr>cache_file := Json \<lparr>version = ''1.0'',
                             updated = Some (isoformat_utc (now w) @ ''Z''),
                             skill_count = length d,
                             cached_skills = Some (dict_values d)\<rparr>\<rparr>"

text \<open>The loop \<open>self.skills[skill.name] = skill\<close> over a list of records.\<close>

fun insert_skills :: "RemoteSkill list \<Rightarrow> RemoteSkill pydict \<Rightarrow> RemoteSkill pydict" where
  "insert_skills [] d = d"
| "insert_skills (skill # rest) d = insert_skills rest (dict_set d (name skill) skill)"

text \<open>
  The cache branch of \<open>load_index\<close>: \<open>Inr (Some d)\<close> where the cache is fresh and \<open>d\<close> is
  the index with its records, \<open>Inr None\<close> where the code goes on to the bundled index
  (no file, no JSON, a stamp \<open>fromisoformat\<close> refuses, a stale cache), and \<open>Inl TypeError\<close>
  where the stamp has no offset: subtracting it from the clock's time raises, and the
  \<open>except\<close> clause does not catch that.
\<close>

definition read_cache :: "world \<Rightarrow> RemoteSkill pydict \<Rightarrow> py_error + RemoteSkill pydict option" where
  "read_cache w d =
     (case cache_file w of
        NoFile \<Rightarrow> Inr None
      | NotJson \<Rightarrow> Inr None
      | Json cache \<Rightarrow>
          (case fromisoformat
                  (replace_char (CHR ''Z'') ''+00:00''
                     (case updated cache of None \<Rightarrow> ''2000-01-01T00:00:00Z'' | Some u \<Rightarrow> u)) of
             None \<Rightarrow> Inr None
           | Some (cache_time, None) \<Rightarrow> Inl TypeError
           | Some (cache_time, Some off) \<Rightarrow>
               if to_microseconds (now w) - (to_microseconds cache_time - off) < 86400 * 1000000
               then Inr (Some (insert_skills (case cached_skills cache of None \<Rightarrow> [] | Some xs \<Rightarrow> xs) d))
               else Inr None))"

text \<open>The record \<open>_load_bundled_index\<close> builds from a dictionary of the bundled index.\<close>

definition skill_of_bundled :: "bundled_skill \<Rightarrow> RemoteSkill" where
  "skill_of_bundled b =
     \<lparr>name = (case b_name b of None \<Rightarrow> [] | Some x \<Rightarrow> x),
      description = (case b_description b of None \<Rightarrow> [] | Some x \<Rightarrow> x),
      source = (case b_source b of None \<Rightarrow> ''awesome-claude-skills'' | Some x \<Rightarrow> x),
      url = (case b_url b of None \<Rightarrow> [] | Some x \<Rightarrow> x),
      category = (case b_category b of None \<Rightarrow> ''general'' | Some x \<Rightarrow> x),
      keywords' = (case b_keywords b of None \<Rightarrow> [] | Some x \<Rightarrow> x),
      readme_url = [],
      skill_md_url = (case b_skill_md_url b of None \<Rightarrow> [] | Some x \<Rightarrow> x)\<rparr>"

fun insert_bundled :: "bundled_entry list \<Rightarrow> RemoteSkill pydict \<Rightarrow> RemoteSkill pydict" where
  "insert_bundled [] d = d"
| "insert_bundled (NotADict # rest) d = insert_bundled rest d"
| "insert_bundled (Dict b # rest) d =
     insert_bundled rest (dict_set d (name (skill_of_bundled b)) (skill_of_bundled b))"

text \<open>
  \<open>ExternalRegistry._load_bundled_index\<close> over the possible paths: the first file that
  exists and holds JSON is loaded; the result says whether one was.
\<close>

fun load_bundled_index :: "bundled_entry list option json_file list \<Rightarrow> RemoteSkill pydict \<Rightarrow> RemoteSkill pydict \<times> bool" where
  "load_bundled_index [] d = (d, False)"
| "load_bundled_index (NoFile # rest) d = load_bundled_index rest d"
| "load_bundled_index (NotJson # rest) d = load_bundled_index rest d"
| "load_bundled_index (Json entries # rest) d =
     (insert_bundled (case entries of None \<Rightarrow> [] | Some es \<Rightarrow> es) d, True)"

section \<open>Loading and refreshing the index\<close>

text \<open>
  \<open>ExternalRegistry.load_index\<close>: the world and the registry after the call, and the
  number it returns. The clock is read once per call.
\<close>

definition load_index :: "world \<Rightarrow> ExternalRegistry \<Rightarrow> bool \<Rightarrow> py_error + (world \<times> ExternalRegistry \<times> nat)" where
  "load_index w st force_refresh =
     (case (if \<not> force_refresh then read_cache w (skills st) else Inr None) of
        Inl e \<Rightarrow> Inl e
      | Inr (Some d) \<Rightarrow> Inr (w, st\<lparr>skills := d, index_loaded := True\<rparr>, length d)
      | Inr None \<Rightarrow>
          (case load_bundled_index (bundled_files w) (skills st) of
             (d1, bundled_loaded) \<Rightarrow>
               let d2 = (if force_refresh \<or> \<not> bundled_loaded
                         then refresh_from_registries w (registries st) d1 else d1);
                   w2 = (if d2 \<noteq> [] then save_cache w d2 else w)
               in Inr (w2, st\<lparr>skills := d2, index_loaded := True\<rparr>, length d2)))"

text \<open>\<open>ExternalRegistry.refresh\<close>\<close>

definition refresh :: "world \<Rightarrow> ExternalRegistry \<Rightarrow> py_error + (world \<times> ExternalRegistry \<times> nat)" where
  "refresh w st = load_index w (st\<lparr>skills := []\<rparr>) True"

text \<open>\<open>ExternalRegistry.search\<close>, which loads the index first where it is not loaded.\<close>

definition search ::
  "(string list \<Rightarrow> string list) \<Rightarrow> world \<Rightarrow> ExternalRegistry \<Rightarrow> string \<Rightarrow> int \<Rightarrow> rat
     \<Rightarrow> py_error + (world \<times> ExternalRegistry \<times> search_result list)" where
  "search set_order w st query top_n threshold =
     (case (if \<not> index_loaded st then load_index w st False else Inr (w, st, 0)) of
        Inl e \<Rightarrow> Inl e
      | Inr (w2, st2, n) \<Rightarrow>
          Inr (w2, st2, search_loaded set_order (skills st2) query top_n threshold))"

section \<open>The unified search\<close>










section \<open>What the properties speak about\<close>

text \<open>The invariants of a record, as section 3 of the specification lists them.\<close>

definition record_invariant :: "RemoteSkill \<Rightarrow> bool" where
  "record_invariant s =
     (name s \<noteq> [] \<and> length (keywords' s) \<le> 15 \<and> distinct (keywords' s)
      \<and> category s \<in> set category_names)"

text \<open>The records the cache file holds, and those the bundled index files hold.\<close>

definition cache_records :: "world \<Rightarrow> RemoteSkill list" where
  "cache_records w =
     (case cache_file w of
        Json cache \<Rightarrow> (case cached_skills cache of None \<Rightarrow> [] | Some xs \<Rightarrow> xs)
      | NoFile \<Rightarrow> [] | NotJson \<Rightarrow> [])"

fun bundled_entry_records :: "bundled_entry list \<Rightarrow> RemoteSkill list" where
  "bundled_entry_records [] = []"
| "bundled_entry_records (NotADict # rest) = bundled_entry_records rest"
| "bundled_entry_records (Dict b # rest) = skill_of_bundled b # bundled_entry_records rest"

fun bundled_records :: "bundled_entry list option json_file list \<Rightarrow> RemoteSkill list" where
  "bundled_records [] = []"
| "bundled_records (Json (Some es) # rest) = bundled_entry_records es @ bundled_records rest"
| "bundled_records (f # rest) = bundled_records rest"

text \<open>The records of the index after a call; none where the call raised.\<close>

definition skills_after :: "py_error + (world \<times> ExternalRegistry \<times> nat) \<Rightarrow> RemoteSkill list" where
  "skills_after res = (case res of Inl e \<Rightarrow> [] | Inr (w, st, n) \<Rightarrow> dict_values (skills st))"



section \<open>Concrete inputs\<close>

text \<open>Records and queries on which the properties below are evaluated.\<close>

definition plain_skill :: "string \<Rightarrow> string \<Rightarrow> string list \<Rightarrow> RemoteSkill" where
  "plain_skill nm descr kws =
     \<lparr>name = nm, description = descr, source = ''awesome-claude-skills'', url = [],
      category = ''general'', keywords' = kws, readme_url = [], skill_md_url = []\<rparr>"

text \<open>A world with no files and no network, and a registry whose index holds one record.\<close>

definition offline_world :: world where
  "offline_world =
     \<lparr>now = \<lparr>year = 2026, month = 11, day = 3, hour = 14, minute = 30, second = 5, microsecond = 0\<rparr>,
      cache_file = NoFile, bundled_files = [],
      fetch_url = (\<lambda>u. None), loads_listing = (\<lambda>c. None)\<rparr>"

definition long_description :: string where
  "long_description = ''Creates documents '' @ replicate 200 (CHR ''x'')"

definition loaded_registry :: ExternalRegistry where
  "loaded_registry =
     \<lparr>skills = [(''pdf'', plain_skill ''pdf'' long_description [])],
      registries = KNOWN_REGISTRIES, index_loaded = True\<rparr>"


text \<open>
  Two registries that both define the skill \<open>pdf-maker\<close>, and a world whose network
  serves their listings and manifests. The second registry has the lower priority
  number.
\<close>

definition registry_hi :: registry where
  "registry_hi =
     \<lparr>reg_name = ''second'', reg_type = ''github'', owner = ''b'', repo = ''r'', branch = None,
      reg_url = ''https://github.com/b/r'', priority = Some 7\<rparr>"

definition registry_lo :: registry where
  "registry_lo =
     \<lparr>reg_name = ''first'', reg_type = ''github'', owner = ''a'', repo = ''r'', branch = Some ''main'',
      reg_url = ''https://github.com/a/r'', priority = Some 3\<rparr>"

definition manifest_lo :: string where
  "manifest_lo = ''---'' @ [CHR 0x0A] @ ''name: pdf-maker'' @ [CHR 0x0A]
     @ ''description: \"Create PDF documents\"'' @ [CHR 0x0A] @ ''---'' @ [CHR 0x0A] @ ''# PDF maker''"

definition manifest_hi :: string where
  "manifest_hi = ''---'' @ [CHR 0x0A] @ ''Name : pdf-maker'' @ [CHR 0x0A]
     @ ''description: Send email'' @ [CHR 0x0A] @ ''---'' @ [CHR 0x0A]"

definition two_registry_world :: world where
  "two_registry_world =
     \<lparr>now = \<lparr>year = 2026, month = 11, day = 3, hour = 14, minute = 30, second = 5, microsecond = 0\<rparr>,
      cache_file = NoFile, bundled_files = [NoFile, NoFile, NoFile],
      fetch_url = (\<lambda>u.
        if u = ''https://api.github.com/repos/a/r/contents?ref=main'' then Some ''listing a''
        else if u = ''https://api.github.com/repos/b/r/contents?ref=master'' then Some ''listing b''
        else if u = ''https://raw.githubusercontent.com/a/r/main/pdf/SKILL.md'' then Some manifest_lo
        else if u = ''https://raw.githubusercontent.com/b/r/master/mail/SKILL.md'' then Some manifest_hi
        else None),
      loads_listing = (\<lambda>c.
        if c = ''listing a'' then Some [(''docs'', ''dir''), (''pdf'', ''dir''), (''README.md'', ''file'')]
        else if c = ''listing b'' then Some [(''.github'', ''dir''), (''mail'', ''dir'')]
        else None)\<rparr>"

definition two_registries :: ExternalRegistry where
  "two_registries = \<lparr>skills = [], registries = [registry_hi, registry_lo], index_loaded = False\<rparr>"

definition skill_lo :: RemoteSkill where
  "skill_lo =
     \<lparr>name = ''pdf-maker'', description = ''Create PDF documents'', source = ''first'',
      url = ''https://github.com/a/r/tree/main/pdf'', category = ''document-processing'',
      keywords' = [''pdf'', ''maker'', ''create'', ''documents''], readme_url = [],
      skill_md_url = ''https://raw.githubusercontent.com/a/r/main/pdf/SKILL.md''\<rparr>"


text \<open>
  The same world with a bundled index at the second place looked at. Its first entry has
  no name; its second is an older record of \<open>pdf-maker\<close>.
\<close>

definition bundled_pdf :: bundled_skill where
  "bundled_pdf =
     \<lparr>b_name = Some ''pdf-maker'', b_description = Some ''Bundled description'', b_source = None,
      b_url = None, b_category = Some ''utilities'', b_keywords = Some [''pdf'', ''pdf''],
      b_skill_md_url = None\<rparr>"

definition bundled_nameless :: bundled_skill where
  "bundled_nameless =
     \<lparr>b_name = None, b_description = Some ''No name here'', b_source = None,
      b_url = None, b_category = None, b_keywords = None, b_skill_md_url = None\<rparr>"

definition bundled_world :: world where
  "bundled_world =
     two_registry_world\<lparr>bundled_files := [NoFile, Json (Some [Dict bundled_nameless, NotADict, Dict bundled_pdf]), NoFile]\<rparr>"






section \<open>Properties of the scorer\<close>

lemma overlap_ratio_bounds:
  fixes A B :: "'a set"
  assumes "finite B" "A \<subseteq> B"
  shows "0 \<le> (of_nat (card A) :: rat) / of_nat (max (card B) 1)"
    and "(of_nat (card A) :: rat) / of_nat (max (card B) 1) \<le> 1"
proof -
  show "0 \<le> (of_nat (card A) :: rat) / of_nat (max (card B) 1)"
    by simp
  have "card A \<le> card B"
    using assms by (rule card_mono)
  then have "card A \<le> max (card B) 1"
    by simp
  then have "(of_nat (card A) :: rat) \<le> of_nat (max (card B) 1)"
    using of_nat_le_iff by blast
  moreover have "(0::rat) < of_nat (max (card B) 1)"
    by simp
  ultimately show "(of_nat (card A) :: rat) / of_nat (max (card B) 1) \<le> 1"
    by (simp add: divide_le_eq_1)
qed

lemma query_ratio_bounds: "0 \<le> query_ratio qs T" "query_ratio qs T \<le> 1"
proof -
  have fin: "finite (set qs)" by simp
  have sub: "set qs \<inter> T \<subseteq> set qs" by blast
  show "0 \<le> query_ratio qs T"
    unfolding query_ratio_def by simp
  have "card (set qs \<inter> T) \<le> card (set qs)"
    using fin sub by (rule card_mono)
  then have "card (set qs \<inter> T) \<le> max (card (set qs)) 1"
    by simp
  then have "(of_nat (card (set qs \<inter> T)) :: rat) \<le> of_nat (max (card (set qs)) 1)"
    using of_nat_le_iff by blast
  moreover have "(0::rat) < of_nat (max (card (set qs)) 1)"
    by simp
  ultimately show "query_ratio qs T \<le> 1"
    unfolding query_ratio_def by (simp add: divide_le_eq_1)
qed

lemma name_ratio_bounds:
  "0 \<le> (of_nat (card (set qs \<inter> set ns)) :: rat) / of_nat (max (card (set ns)) 1)"
  "(of_nat (card (set qs \<inter> set ns)) :: rat) / of_nat (max (card (set ns)) 1) \<le> 1"
proof -
  have fin: "finite (set ns)" by simp
  have sub: "set qs \<inter> set ns \<subseteq> set ns" by blast
  show "0 \<le> (of_nat (card (set qs \<inter> set ns)) :: rat) / of_nat (max (card (set ns)) 1)"
    by (rule overlap_ratio_bounds(1)[OF fin sub])
  show "(of_nat (card (set qs \<inter> set ns)) :: rat) / of_nat (max (card (set ns)) 1) \<le> 1"
    by (rule overlap_ratio_bounds(2)[OF fin sub])
qed

text \<open>The score written with its three ratios.\<close>

lemma calculate_score_unfold:
  "calculate_score qs s =
     min (((if replace_char (CHR ''-'') '' '' (lower (name s)) = join '' '' qs
               \<or> str_contains (join '' '' qs) (lower (name s))
            then 1
            else of_nat (card (set qs \<inter> set (findall_az 2 (replace_char (CHR ''-'') '' '' (lower (name s))))))
                 / of_nat (max (card (set (findall_az 2 (replace_char (CHR ''-'') '' '' (lower (name s)))))) 1))
           + query_ratio qs (set (findall_az 2 (lower (description s)))) * (7 / 10)
           + query_ratio qs (set (keywords' s)) * (5 / 10)) / (22 / 10)) 1"
  unfolding calculate_score_def query_ratio_def Let_def by simp

lemma query_ratio_eq_1_iff:
  "query_ratio qs T = 1 \<longleftrightarrow> qs \<noteq> [] \<and> set qs \<subseteq> T"
proof (cases "qs = []")
  case True
  then show ?thesis by (simp add: query_ratio_def)
next
  case False
  then have pos: "0 < card (set qs)" by (simp add: card_gt_0_iff)
  then have m: "max (card (set qs)) 1 = card (set qs)" by simp
  have "query_ratio qs T = 1 \<longleftrightarrow> card (set qs \<inter> T) = card (set qs)"
    unfolding query_ratio_def m using pos False by auto
  also have "\<dots> \<longleftrightarrow> set qs \<inter> T = set qs"
  proof
    assume "card (set qs \<inter> T) = card (set qs)"
    then show "set qs \<inter> T = set qs"
      by (metis List.finite_set card_subset_eq inf_le1)
  next
    assume "set qs \<inter> T = set qs"
    then show "card (set qs \<inter> T) = card (set qs)" by simp
  qed
  also have "\<dots> \<longleftrightarrow> set qs \<subseteq> T" by blast
  finally show ?thesis using False by simp
qed

subsection \<open>The range of the score\<close>

text \<open>
  Claim C6. For every list of query tokens and every record the score lies between 0 and
  1. The divisors are \<open>max(n, 1)\<close>, never zero, so the score is defined for the empty
  token set too, and there it is 0 for every record whose name is not empty.
\<close>

theorem score_in_unit_interval:
  "0 \<le> calculate_score qs s \<and> calculate_score qs s \<le> 1
   \<and> max (card (set qs)) 1 \<noteq> 0
   \<and> (name s \<noteq> [] \<longrightarrow> calculate_score [] s = 0)"
proof -
  let ?n = "(if replace_char (CHR ''-'') '' '' (lower (name s)) = join '' '' qs
               \<or> str_contains (join '' '' qs) (lower (name s))
            then 1
            else of_nat (card (set qs \<inter> set (findall_az 2 (replace_char (CHR ''-'') '' '' (lower (name s))))))
                 / of_nat (max (card (set (findall_az 2 (replace_char (CHR ''-'') '' '' (lower (name s)))))) 1)) :: rat"
  let ?d = "query_ratio qs (set (findall_az 2 (lower (description s))))"
  let ?k = "query_ratio qs (set (keywords' s))"
  have n: "0 \<le> ?n" "?n \<le> 1"
    using name_ratio_bounds[of qs "findall_az 2 (replace_char (CHR ''-'') '' '' (lower (name s)))"]
    by simp_all
  have d: "0 \<le> ?d" "?d \<le> 1" by (rule query_ratio_bounds)+
  have k: "0 \<le> ?k" "?k \<le> 1" by (rule query_ratio_bounds)+
  have eq: "calculate_score qs s = min ((?n + ?d * (7 / 10) + ?k * (5 / 10)) / (22 / 10)) 1"
    by (rule calculate_score_unfold)
  have lo: "0 \<le> calculate_score qs s"
    unfolding eq using n d k by simp
  have hi: "calculate_score qs s \<le> 1"
    unfolding eq by simp
  have empty: "calculate_score [] s = 0" if "name s \<noteq> []"
  proof -
    have nonempty: "lower (name s) \<noteq> []"
      using that by (simp add: lower_def)
    then have "replace_char (CHR ''-'') '' '' (lower (name s)) \<noteq> []"
      by (cases "lower (name s)") (simp_all add: replace_char_def)
    with nonempty show ?thesis
      by (simp add: calculate_score_unfold query_ratio_def)
  qed
  show ?thesis using lo hi empty by simp
qed

theorem score_in_unit_interval_witness:
  "name (plain_skill ''pdf-creator'' ''Create PDF documents'' [''create'', ''pdf'']) \<noteq> []
   \<and> calculate_score [] (plain_skill ''pdf-creator'' ''Create PDF documents'' [''create'', ''pdf'']) = 0
   \<and> calculate_score [''pdf'', ''maker''] (plain_skill ''pdf-creator'' ''Create PDF documents'' [''create'', ''pdf'']) \<le> 1"
proof -
  have h: "name (plain_skill ''pdf-creator'' ''Create PDF documents'' [''create'', ''pdf'']) \<noteq> []"
    by (simp add: plain_skill_def)
  show ?thesis
    using h score_in_unit_interval[of "[''pdf'', ''maker'']"
        "plain_skill ''pdf-creator'' ''Create PDF documents'' [''create'', ''pdf'']"]
    by blast
qed

subsection \<open>An exact name match\<close>

text \<open>
  Claim C2 says that a record whose name equals the query, up to case and with hyphens
  read as spaces, scores 1.0 whatever its description. It does not: the match sets the
  name score to 1, and a record with an empty description and no keywords then scores
  1 / 2.2.
\<close>

theorem exact_name_match_counterexample:
  "replace_char (CHR ''-'') '' '' (lower (name (plain_skill ''pdf'' [] []))) = join '' '' [''pdf'']
   \<and> calculate_score [''pdf''] (plain_skill ''pdf'' [] []) = 5 / 11"
  by code_simp

text \<open>
  Claim C2 as amended. When the lowercased name with hyphens read as spaces equals the
  joined query, the name score is 1 and the score is
  \<open>(1 + 0.7 d + 0.5 k) / 2.2\<close>, where \<open>d\<close> and \<open>k\<close> are the shares of the query tokens
  found among the description tokens and among the keywords. So the score is at least
  1 / 2.2 whatever the description, and it is 1.0 exactly when every query token is
  both a description token and a keyword.
\<close>

theorem exact_name_match_score:
  assumes "replace_char (CHR ''-'') '' '' (lower (name s)) = join '' '' qs"
  shows "calculate_score qs s =
           (1 + query_ratio qs (set (findall_az 2 (lower (description s)))) * (7 / 10)
              + query_ratio qs (set (keywords' s)) * (5 / 10)) / (22 / 10)
         \<and> 5 / 11 \<le> calculate_score qs s \<and> calculate_score qs s \<le> 1
         \<and> (calculate_score qs s = 1 \<longleftrightarrow>
              qs \<noteq> [] \<and> set qs \<subseteq> set (findall_az 2 (lower (description s)))
                \<and> set qs \<subseteq> set (keywords' s))"
proof -
  let ?d = "query_ratio qs (set (findall_az 2 (lower (description s))))"
  let ?k = "query_ratio qs (set (keywords' s))"
  have d: "0 \<le> ?d" "?d \<le> 1" by (rule query_ratio_bounds)+
  have k: "0 \<le> ?k" "?k \<le> 1" by (rule query_ratio_bounds)+
  have le: "(1 + ?d * (7 / 10) + ?k * (5 / 10)) / (22 / 10) \<le> 1"
    using d k by simp
  have eq: "calculate_score qs s = (1 + ?d * (7 / 10) + ?k * (5 / 10)) / (22 / 10)"
    unfolding calculate_score_unfold using assms le by simp
  have lo: "5 / 11 \<le> calculate_score qs s"
    unfolding eq using d k by simp
  have one: "calculate_score qs s = 1 \<longleftrightarrow> ?d = 1 \<and> ?k = 1"
    unfolding eq using d k by auto
  show ?thesis
    using eq lo le one by (auto simp add: query_ratio_eq_1_iff)
qed

theorem exact_name_match_score_witness:
  "replace_char (CHR ''-'') '' '' (lower (name (plain_skill ''Invoice-Organizer'' ''Organize invoices'' [''invoice''])))
     = join '' '' [''invoice'', ''organizer'']
   \<and> 5 / 11 \<le> calculate_score [''invoice'', ''organizer'']
                  (plain_skill ''Invoice-Organizer'' ''Organize invoices'' [''invoice''])
   \<and> calculate_score [''invoice'', ''organizer'']
        (plain_skill ''Invoice-Organizer'' ''Organize invoices'' [''invoice'']) \<noteq> 1"
proof -
  have h: "replace_char (CHR ''-'') '' '' (lower (name (plain_skill ''Invoice-Organizer'' ''Organize invoices'' [''invoice''])))
             = join '' '' [''invoice'', ''organizer'']"
    by code_simp
  have k: "\<not> set [''invoice'', ''organizer''] \<subseteq> set (keywords' (plain_skill ''Invoice-Organizer'' ''Organize invoices'' [''invoice'']))"
    by (simp add: plain_skill_def)
  show ?thesis
    using h k exact_name_match_score[OF h] by blast
qed

subsection \<open>The formula of the score\<close>

text \<open>
  Claim C3 says that the score is the formula of section 4.5, in which the name score is
  forced to 1 when the joined query equals the normalized name or when the normalized
  name is a substring of the joined query. The code tests the second condition on the
  lowercased name with its hyphens left in: \<open>voice-org\<close> is no substring of
  \<open>invoice organizer\<close>, though \<open>voice org\<close> is, so the code scores 0 where the formula
  of the specification gives 1 / 2.2. The same holds for the name \<open>a-a\<close> and the query
  tokens \<open>aza\<close> and \<open>aqa\<close>, in whichever order the set is iterated.
\<close>

theorem score_formula_counterexample:
  "calculate_score [''invoice'', ''organizer''] (plain_skill ''voice-org'' [] []) = 0
   \<and> spec_score [''invoice'', ''organizer''] (plain_skill ''voice-org'' [] []) = 5 / 11
   \<and> calculate_score [''aza'', ''aqa''] (plain_skill ''a-a'' [] []) = 0
   \<and> spec_score [''aza'', ''aqa''] (plain_skill ''a-a'' [] []) = 5 / 11
   \<and> calculate_score [''aqa'', ''aza''] (plain_skill ''a-a'' [] []) = 0
   \<and> spec_score [''aqa'', ''aza''] (plain_skill ''a-a'' [] []) = 5 / 11"
  by code_simp

text \<open>
  Claim C3 as amended. For every list of query tokens, in the order the set is iterated
  and joined, and every record, the score is the formula of section 4.5 with one change:
  the name score is forced to 1 when the joined query equals the normalized name or
  when the lowercased name, hyphens kept, is a substring of the joined query.
\<close>

theorem score_is_formula:
  "calculate_score qs s = score_formula (lower (name s)) qs s"
  unfolding calculate_score_def score_formula_def Let_def by simp

theorem score_is_formula_witness:
  "calculate_score [''create'', ''pdf'', ''file''] (plain_skill ''PDF'' ''Create PDF documents'' [''pdf''])
     = score_formula ''pdf'' [''create'', ''pdf'', ''file''] (plain_skill ''PDF'' ''Create PDF documents'' [''pdf''])
   \<and> calculate_score [''create'', ''pdf'', ''file''] (plain_skill ''PDF'' ''Create PDF documents'' [''pdf'']) = 49 / 66"
proof -
  have l: "lower (name (plain_skill ''PDF'' ''Create PDF documents'' [''pdf''])) = ''pdf''"
    by code_simp
  have v: "score_formula ''pdf'' [''create'', ''pdf'', ''file''] (plain_skill ''PDF'' ''Create PDF documents'' [''pdf'']) = 49 / 66"
    by code_simp
  show ?thesis
    using l v score_is_formula[of "[''create'', ''pdf'', ''file'']"
        "plain_skill ''PDF'' ''Create PDF documents'' [''pdf'']"]
    by simp
qed

section \<open>Properties of the categorizer\<close>

text \<open>\<open>startswith\<close> and \<open>str_contains\<close> are the prefix and the substring relation.\<close>


lemma startswith_iff: "startswith s p \<longleftrightarrow> (\<exists>q. s = p @ q)"
  by (induction s p rule: startswith.induct) auto

lemma str_contains_iff: "str_contains s n \<longleftrightarrow> (\<exists>p q. s = p @ n @ q)"
proof (induction s)
  case Nil
  then show ?case by simp
next
  case (Cons c cs)
  show ?case
  proof
    assume "str_contains (c # cs) n"
    then consider "startswith (c # cs) n" | "str_contains cs n" by auto
    then show "\<exists>p q. c # cs = p @ n @ q"
    proof cases
      case 1
      then obtain q where "c # cs = n @ q" by (auto simp: startswith_iff)
      then have "c # cs = [] @ n @ q" by simp
      then show ?thesis by blast
    next
      case 2
      then obtain p q where "cs = p @ n @ q" using Cons.IH by blast
      then have "c # cs = (c # p) @ n @ q" by simp
      then show ?thesis by blast
    qed
  next
    assume "\<exists>p q. c # cs = p @ n @ q"
    then obtain p q where pq: "c # cs = p @ n @ q" by blast
    show "str_contains (c # cs) n"
    proof (cases p)
      case Nil
      then have "startswith (c # cs) n" using pq by (auto simp: startswith_iff)
      then show ?thesis by simp
    next
      case (Cons a p')
      then have "cs = p' @ n @ q" using pq by simp
      then have "str_contains cs n" using Cons.IH by blast
      then show ?thesis by simp
    qed
  qed
qed

lemma any_keyword_in_iff:
  "any_keyword_in t kws \<longleftrightarrow> (\<exists>kw \<in> set kws. \<exists>p q. t = p @ kw @ q)"
  by (simp add: any_keyword_in_def list_ex_iff str_contains_iff)

lemma categorize_loop_find:
  "categorize_loop t cs =
     (case List.find (\<lambda>c. any_keyword_in t (snd c)) cs of None \<Rightarrow> ''general'' | Some c \<Rightarrow> fst c)"
  by (induction cs) auto

lemma categorize_loop_first:
  assumes "i < length cs" "any_keyword_in t (snd (cs ! i))"
    "\<forall>j<i. \<not> any_keyword_in t (snd (cs ! j))"
  shows "categorize_loop t cs = fst (cs ! i)"
proof -
  have "List.find (\<lambda>c. any_keyword_in t (snd c)) cs = Some (cs ! i)"
    unfolding find_Some_iff using assms by blast
  then show ?thesis by (simp add: categorize_loop_find)
qed

lemma categorize_loop_none:
  assumes "\<forall>i<length cs. \<not> any_keyword_in t (snd (cs ! i))"
  shows "categorize_loop t cs = ''general''"
proof -
  have "List.find (\<lambda>c. any_keyword_in t (snd c)) cs = None"
    unfolding find_None_iff using assms by (metis in_set_conv_nth)
  then show ?thesis by (simp add: categorize_loop_find)
qed

text \<open>
  Claim C8. The categorizer joins name and description (with a space between them),
  lowercases the text and walks the categories in the order they are declared; a
  category matches when one of its keywords is a substring of the text. The result is
  the first category that matches, whatever later categories match and however many of
  their keywords do, and \<open>general\<close> when none matches.
\<close>

theorem categorize_first_match:
  "(\<forall>i<length categories.
      (\<exists>kw \<in> set (snd (categories ! i)). \<exists>p q. lower (nm @ '' '' @ descr) = p @ kw @ q)
      \<and> (\<forall>j<i. \<not> (\<exists>kw \<in> set (snd (categories ! j)). \<exists>p q. lower (nm @ '' '' @ descr) = p @ kw @ q))
      \<longrightarrow> categorize nm descr = fst (categories ! i))
   \<and> ((\<forall>i<length categories.
         \<not> (\<exists>kw \<in> set (snd (categories ! i)). \<exists>p q. lower (nm @ '' '' @ descr) = p @ kw @ q))
       \<longrightarrow> categorize nm descr = ''general'')"
  unfolding categorize_def any_keyword_in_iff[symmetric]
  using categorize_loop_first categorize_loop_none by blast


text \<open>
  A text in which \<open>document-processing\<close> has one matching keyword and \<open>data-analysis\<close>,
  declared later, has four: the first wins.
\<close>

theorem categorize_first_match_witness:
  "length (filter (str_contains (lower (''pdf-tool'' @ '' '' @ ''Analyze data in csv and chart it''))) (snd (categories ! 0))) = 1
   \<and> length (filter (str_contains (lower (''pdf-tool'' @ '' '' @ ''Analyze data in csv and chart it''))) (snd (categories ! 2))) = 4
   \<and> categorize ''pdf-tool'' ''Analyze data in csv and chart it'' = ''document-processing''"
proof -
  have h0: "any_keyword_in (lower (''pdf-tool'' @ '' '' @ ''Analyze data in csv and chart it'')) (snd (categories ! 0))"
    by code_simp
  have c0: "length (filter (str_contains (lower (''pdf-tool'' @ '' '' @ ''Analyze data in csv and chart it''))) (snd (categories ! 0))) = 1"
    by code_simp
  have c2: "length (filter (str_contains (lower (''pdf-tool'' @ '' '' @ ''Analyze data in csv and chart it''))) (snd (categories ! 2))) = 4"
    by code_simp
  have f: "fst (categories ! 0) = ''document-processing''" and l: "0 < length categories"
    by (simp_all add: categories_def)
  have "categorize ''pdf-tool'' ''Analyze data in csv and chart it'' = fst (categories ! 0)"
    using categorize_first_match[of "''pdf-tool''" "''Analyze data in csv and chart it''"] h0 l
    unfolding any_keyword_in_iff by blast
  with c0 c2 f show ?thesis by simp
qed

section \<open>Properties of the search\<close>


lemma round3_thousandth: "\<exists>n::int. round3 x = of_int n / 1000"
  unfolding round3_def Let_def by blast

lemma round3_close: "\<bar>round3 x - x\<bar> \<le> 1 / 2000"
proof -
  define n where "n = \<lfloor>x * 1000\<rfloor>"
  define f where "f = x * 1000 - of_int n"
  define m where "m = (if f < 1 / 2 then n else if 1 / 2 < f then n + 1
                 else if even n then n else n + 1)"
  have f0: "0 \<le> f" and f1: "f < 1"
    unfolding f_def n_def by linarith+
  have r: "round3 x = of_int m / 1000"
    unfolding round3_def Let_def n_def f_def m_def by simp
  have "\<bar>of_int m - (of_int n + f)\<bar> \<le> 1 / 2"
    unfolding m_def using f0 f1 by (auto simp: abs_if)
  moreover have "of_int n + f = x * 1000"
    unfolding f_def by simp
  ultimately have "\<bar>of_int m - x * 1000\<bar> \<le> 1 / 2"
    by simp
  then have b: "- (1 / 2) \<le> of_int m - x * 1000 \<and> of_int m - x * 1000 \<le> 1 / 2"
    by linarith
  have e: "round3 x - x = (of_int m - x * 1000) / 1000"
    unfolding r by (simp add: diff_divide_distrib)
  show ?thesis
    unfolding e using b by (auto simp: abs_if field_simps)
qed

lemma score_skills_elem:
  "r \<in> set (score_skills qs th xs) \<Longrightarrow>
     \<exists>s \<in> set xs. r = result_of_skill (calculate_score qs s) s \<and> th \<le> calculate_score qs s"
  by (induction xs) (auto simp: Let_def split: if_splits)

lemma set_slice_to: "set (slice_to n xs) \<subseteq> set xs"
  unfolding slice_to_def by (auto dest: in_set_takeD)

lemma search_loaded_elem:
  assumes "r \<in> set (search_loaded set_order d query top_n th)"
  shows "\<exists>s \<in> set (dict_values d).
           r = result_of_skill (calculate_score (set_order (findall_az 2 (lower query))) s) s
           \<and> th \<le> calculate_score (set_order (findall_az 2 (lower query))) s"
proof -
  have "r \<in> set (score_skills (set_order (findall_az 2 (lower query))) th (dict_values d))"
    using assms set_slice_to unfolding search_loaded_def Let_def sort_by_score_desc_def
    by (fastforce split: if_splits)
  then show ?thesis by (rule score_skills_elem)
qed

lemma search_loaded_no_tokens:
  "findall_az 2 (lower query) = [] \<Longrightarrow> search_loaded set_order d query top_n th = []"
  by (simp add: search_loaded_def)

lemma search_result_is_search_loaded:
  assumes "search set_order w st query top_n th = Inr (w2, st2, results)"
  shows "results = search_loaded set_order (skills st2) query top_n th"
  using assms unfolding search_def by (auto split: if_splits sum.splits)

text \<open>
  Claim C10. Every result \<open>ExternalRegistry.search\<close> returns belongs to a record of the
  index that reached the threshold; it carries the first 200 characters of the record's
  description and the record's score rounded to three decimal places: a multiple of a
  thousandth at most half a thousandth away from the score. A query without a run of at
  least two lowercase letters (after lowercasing) gives no result at all.
\<close>

theorem search_results_truncated_and_rounded:
  assumes "search set_order w st query top_n threshold = Inr (w2, st2, results)"
  shows "(\<forall>r \<in> set results. \<exists>skill \<in> set (dict_values (skills st2)).
             r_name r = Some (name skill)
           \<and> r_description r = Some (take 200 (description skill))
           \<and> r_score r = Some (round3 (calculate_score (set_order (findall_az 2 (lower query))) skill))
           \<and> threshold \<le> calculate_score (set_order (findall_az 2 (lower query))) skill)
         \<and> (\<forall>x. (\<exists>n::int. round3 x = of_int n / 1000) \<and> \<bar>round3 x - x\<bar> \<le> 1 / 2000)
         \<and> (findall_az 2 (lower query) = [] \<longrightarrow> results = [])"
proof -
  have res: "results = search_loaded set_order (skills st2) query top_n threshold"
    using assms by (rule search_result_is_search_loaded)
  have elems: "\<forall>r \<in> set results. \<exists>skill \<in> set (dict_values (skills st2)).
             r_name r = Some (name skill)
           \<and> r_description r = Some (take 200 (description skill))
           \<and> r_score r = Some (round3 (calculate_score (set_order (findall_az 2 (lower query))) skill))
           \<and> threshold \<le> calculate_score (set_order (findall_az 2 (lower query))) skill"
  proof
    fix r assume "r \<in> set results"
    then obtain s where s: "s \<in> set (dict_values (skills st2))"
      "r = result_of_skill (calculate_score (set_order (findall_az 2 (lower query))) s) s"
      "threshold \<le> calculate_score (set_order (findall_az 2 (lower query))) s"
      unfolding res using search_loaded_elem by blast
    then show "\<exists>skill \<in> set (dict_values (skills st2)).
             r_name r = Some (name skill)
           \<and> r_description r = Some (take 200 (description skill))
           \<and> r_score r = Some (round3 (calculate_score (set_order (findall_az 2 (lower query))) skill))
           \<and> threshold \<le> calculate_score (set_order (findall_az 2 (lower query))) skill"
      by (auto simp: result_of_skill_def)
  qed
  have empty: "findall_az 2 (lower query) = [] \<longrightarrow> results = []"
    unfolding res by (simp add: search_loaded_no_tokens)
  show ?thesis
    using elems empty round3_thousandth round3_close by blast
qed


text \<open>
  A record whose description has 218 characters and whose score is 5 / 11: the result
  holds 200 characters and the score 0.455.
\<close>

theorem search_results_truncated_and_rounded_witness:
  "search (\<lambda>ws. ws) offline_world loaded_registry ''a PDF, please!'' 10 (1 / 10)
     = Inr (offline_world, loaded_registry,
            [result_of_skill (5 / 11) (plain_skill ''pdf'' long_description [])])
   \<and> (\<exists>skill \<in> set (dict_values (skills loaded_registry)).
         r_description (result_of_skill (5 / 11) (plain_skill ''pdf'' long_description []))
           = Some (take 200 (description skill))
         \<and> r_score (result_of_skill (5 / 11) (plain_skill ''pdf'' long_description []))
           = Some (round3 (calculate_score (findall_az 2 (lower ''a PDF, please!'')) skill)))
   \<and> r_score (result_of_skill (5 / 11) (plain_skill ''pdf'' long_description [])) = Some (91 / 200)
   \<and> length long_description = 218
   \<and> r_description (result_of_skill (5 / 11) (plain_skill ''pdf'' long_description []))
        \<noteq> Some long_description"
proof -
  have loaded: "search_loaded (\<lambda>ws. ws) (skills loaded_registry) ''a PDF, please!'' 10 (1 / 10)
      = [result_of_skill (5 / 11) (plain_skill ''pdf'' long_description [])]"
    by code_simp
  have h: "search (\<lambda>ws. ws) offline_world loaded_registry ''a PDF, please!'' 10 (1 / 10)
     = Inr (offline_world, loaded_registry,
            [result_of_skill (5 / 11) (plain_skill ''pdf'' long_description [])])"
    unfolding search_def using loaded by (simp add: loaded_registry_def)
  have sc: "r_score (result_of_skill (5 / 11) (plain_skill ''pdf'' long_description [])) = Some (91 / 200)"
    by code_simp
  have len: "length long_description = 218"
    by code_simp
  have de: "r_description (result_of_skill (5 / 11) (plain_skill ''pdf'' long_description []))
        \<noteq> Some long_description"
    by code_simp
  have "\<exists>skill \<in> set (dict_values (skills loaded_registry)).
         r_description (result_of_skill (5 / 11) (plain_skill ''pdf'' long_description []))
           = Some (take 200 (description skill))
         \<and> r_score (result_of_skill (5 / 11) (plain_skill ''pdf'' long_description []))
           = Some (round3 (calculate_score (findall_az 2 (lower ''a PDF, please!'')) skill))"
    using search_results_truncated_and_rounded[OF h] by fastforce
  with h sc len de show ?thesis by blast
qed

section \<open>Properties of the recommendation\<close>
















section \<open>Properties of the remote index\<close>

subsection \<open>Dictionaries\<close>


lemma dict_values_dict_set:
  "set (dict_values (dict_set d k v)) \<subseteq> insert v (set (dict_values d))"
  by (induction d) (force simp: dict_values_def split: if_splits)+

lemma dict_keys_dict_set:
  "set (map fst (dict_set d k v)) = insert k (set (map fst d))"
  by (induction d) (force split: if_splits)+

lemma dict_set_distinct:
  "distinct (map fst d) \<Longrightarrow> distinct (map fst (dict_set d k v))"
proof (induction d)
  case Nil
  then show ?case by simp
next
  case (Cons p d)
  obtain k' v' where p: "p = (k', v')" by (cases p)
  show ?case
  proof (cases "k' = k")
    case True
    then show ?thesis using Cons.prems p by simp
  next
    case False
    have "k' \<notin> set (map fst (dict_set d k v))"
      using Cons.prems p False unfolding dict_keys_dict_set by auto
    then show ?thesis using Cons p False by simp
  qed
qed

subsection \<open>Keywords and categories\<close>

lemma extract_loop_invariant:
  assumes "distinct kws" "set kws \<subseteq> seen" "length kws < 15"
  shows "distinct (extract_loop ws seen kws) \<and> length (extract_loop ws seen kws) \<le> 15"
  using assms
proof (induction ws seen kws rule: extract_loop.induct)
  case (1 seen kws)
  then show ?case by simp
next
  case (2 w ws seen kws)
  show ?case
  proof (cases "w \<notin> set stopwords \<and> w \<notin> seen")
    case False
    then show ?thesis using 2 by auto
  next
    case new: True
    then have d: "distinct (kws @ [w])" using "2.prems" by auto
    show ?thesis
    proof (cases "length (kws @ [w]) \<ge> 15")
      case True
      then show ?thesis using new d "2.prems" by simp
    next
      case False
      then have "length (kws @ [w]) < 15" by simp
      moreover have "set (kws @ [w]) \<subseteq> insert w seen" using "2.prems" by auto
      ultimately show ?thesis using "2.IH"(1)[OF new False d] new False by simp
    qed
  qed
qed

lemma extract_keywords_invariant:
  "distinct (extract_keywords t) \<and> length (extract_keywords t) \<le> 15"
  unfolding extract_keywords_def by (rule extract_loop_invariant) simp_all

lemma categorize_loop_range:
  "categorize_loop t cs \<in> set (map fst cs) \<union> {''general''}"
  by (induction cs) force+

lemma categorize_in_category_names: "categorize nm descr \<in> set category_names"
  unfolding categorize_def category_names_def using categorize_loop_range by fastforce

lemma category_names_nine: "length category_names = 9 \<and> distinct category_names"
  by (simp add: category_names_def categories_def)

subsection \<open>The records of a registry\<close>

lemma skill_of_directory_invariant:
  assumes "skill_of_directory w reg dir_name = Some s"
  shows "record_invariant s"
proof -
  from assms obtain nm descr where
    s: "name s = nm" "nm \<noteq> []" "keywords' s = extract_keywords (nm @ '' '' @ or_else descr [])"
       "category s = categorize nm (or_else descr [])"
    unfolding skill_of_directory_def Let_def
    by (auto split: if_splits option.splits prod.splits)
  then show ?thesis
    unfolding record_invariant_def
    using extract_keywords_invariant categorize_in_category_names by simp
qed

lemma index_directories_preserves:
  assumes "\<forall>s \<in> set (dict_values d). P s"
    and "\<And>dir_name s. skill_of_directory w reg dir_name = Some s \<Longrightarrow> P s"
  shows "\<forall>s \<in> set (dict_values (index_directories w reg dirs d)). P s"
  using assms(1)
proof (induction dirs arbitrary: d)
  case Nil
  then show ?case by simp
next
  case (Cons dir_name dirs)
  show ?case
  proof (cases "skill_of_directory w reg dir_name")
    case None
    then show ?thesis using Cons by simp
  next
    case (Some skill)
    have P: "P skill" using assms(2) Some by blast
    have "\<forall>s \<in> set (dict_values (dict_set d (name skill) skill)). P s"
      using Cons.prems P dict_values_dict_set[of d "name skill" skill] by blast
    then show ?thesis using Cons Some by simp
  qed
qed

lemma index_registries_preserves:
  assumes "\<forall>s \<in> set (dict_values d). P s"
    and "\<And>reg dir_name s. skill_of_directory w reg dir_name = Some s \<Longrightarrow> P s"
  shows "\<forall>s \<in> set (dict_values (index_registries w regs d)). P s"
  using assms(1)
proof (induction regs arbitrary: d)
  case Nil
  then show ?case by simp
next
  case (Cons reg regs)
  have "\<forall>s \<in> set (dict_values (index_github_registry w d reg)). P s"
    unfolding index_github_registry_def
    using Cons.prems assms(2) by (intro index_directories_preserves) blast+
  then show ?case using Cons by simp
qed

lemma refresh_from_registries_invariant:
  assumes "\<forall>s \<in> set (dict_values d). record_invariant s"
  shows "\<forall>s \<in> set (dict_values (refresh_from_registries w regs d)). record_invariant s"
  unfolding refresh_from_registries_def
  using assms skill_of_directory_invariant by (intro index_registries_preserves) blast+

lemma insert_skills_preserves:
  assumes "\<forall>s \<in> set (dict_values d). P s" "\<forall>s \<in> set xs. P s"
  shows "\<forall>s \<in> set (dict_values (insert_skills xs d)). P s"
  using assms
proof (induction xs arbitrary: d)
  case Nil
  then show ?case by simp
next
  case (Cons x xs)
  have "\<forall>s \<in> set (dict_values (dict_set d (name x) x)). P s"
    using Cons.prems dict_values_dict_set[of d "name x" x] by auto
  then show ?case using Cons by simp
qed

lemma insert_bundled_preserves:
  assumes "\<forall>s \<in> set (dict_values d). P s" "\<forall>s \<in> set (bundled_entry_records es). P s"
  shows "\<forall>s \<in> set (dict_values (insert_bundled es d)). P s"
  using assms
proof (induction es d rule: insert_bundled.induct)
  case (1 d)
  then show ?case by simp
next
  case (2 rest d)
  then show ?case by simp
next
  case (3 b rest d)
  have "\<forall>s \<in> set (dict_values (dict_set d (name (skill_of_bundled b)) (skill_of_bundled b))). P s"
    using "3.prems" dict_values_dict_set[of d "name (skill_of_bundled b)" "skill_of_bundled b"] by auto
  then show ?case using 3 by simp
qed

lemma load_bundled_index_preserves:
  assumes "\<forall>s \<in> set (dict_values d). P s" "\<forall>s \<in> set (bundled_records fs). P s"
  shows "\<forall>s \<in> set (dict_values (fst (load_bundled_index fs d))). P s"
  using assms
proof (induction fs d rule: load_bundled_index.induct)
  case (1 d)
  then show ?case by simp
next
  case (2 rest d)
  then show ?case by simp
next
  case (3 rest d)
  then show ?case by simp
next
  case (4 entries rest d)
  have "\<forall>s \<in> set (bundled_entry_records (case entries of None \<Rightarrow> [] | Some es \<Rightarrow> es)). P s"
    using "4.prems"(2) by (cases entries) simp_all
  from insert_bundled_preserves[OF "4.prems"(1) this] show ?case by simp
qed

lemma read_cache_preserves:
  assumes "read_cache w d = Inr (Some d')"
    "\<forall>s \<in> set (dict_values d). P s" "\<forall>s \<in> set (cache_records w). P s"
  shows "\<forall>s \<in> set (dict_values d'). P s"
proof -
  from assms(1) obtain cache where c: "cache_file w = Json cache"
    and d': "d' = insert_skills (case cached_skills cache of None \<Rightarrow> [] | Some xs \<Rightarrow> xs) d"
    unfolding read_cache_def
    by (auto split: json_file.splits option.splits prod.splits if_splits)
  have "\<forall>s \<in> set (case cached_skills cache of None \<Rightarrow> [] | Some xs \<Rightarrow> xs). P s"
    using assms(3) c by (simp add: cache_records_def)
  then show ?thesis unfolding d' using assms(2) by (intro insert_skills_preserves)
qed

text \<open>
  Claim C7 says that every record of the index satisfies the invariants of a record
  after any load path. The loads from the cache and from the bundled index store the
  records as the file gives them, and the bundled load takes \<open>""\<close> for a name that is
  missing: with a bundled index that holds an entry without a name and an entry whose
  keywords repeat and whose category is none of the nine, the loaded index holds a
  record with an empty name and one with duplicate keywords and a foreign category.
\<close>

theorem load_invariants_counterexample:
  "skills_after (load_index bundled_world two_registries False)
     = [skill_of_bundled bundled_nameless, skill_of_bundled bundled_pdf]
   \<and> name (skill_of_bundled bundled_nameless) = []
   \<and> \<not> record_invariant (skill_of_bundled bundled_nameless)
   \<and> \<not> distinct (keywords' (skill_of_bundled bundled_pdf))
   \<and> category (skill_of_bundled bundled_pdf) \<notin> set category_names"
  by code_simp

text \<open>
  Claim C7 as amended. Every record the network rebuild inserts has a name that is not
  empty, at most 15 keywords without duplicates and one of the nine categories; the
  loads from the cache and from the bundled index add the records of the file as they
  are. So after any load path every record of the index satisfies the invariants
  provided the records in memory before the call, the records of the cache file and the
  records of the bundled index files do.
\<close>

theorem load_index_keeps_invariants:
  assumes "load_index w st force_refresh = Inr (w2, st2, n)"
    and "\<forall>s \<in> set (dict_values (skills st)). record_invariant s"
    and "\<forall>s \<in> set (cache_records w). record_invariant s"
    and "\<forall>s \<in> set (bundled_records (bundled_files w)). record_invariant s"
  shows "\<forall>s \<in> set (dict_values (skills st2)). record_invariant s"
proof (cases "if \<not> force_refresh then read_cache w (skills st) else Inr None")
  case (Inl e)
  then show ?thesis using assms(1) by (simp add: load_index_def)
next
  case (Inr hit)
  show ?thesis
  proof (cases hit)
    case (Some d)
    then have rc: "read_cache w (skills st) = Inr (Some d)"
      using Inr by (auto split: if_splits)
    have "skills st2 = d"
      using assms(1) Inr Some by (auto simp: load_index_def)
    then show ?thesis
      using read_cache_preserves[OF rc assms(2) assms(3)] by simp
  next
    case None
    obtain d1 b where lb: "load_bundled_index (bundled_files w) (skills st) = (d1, b)"
      by (cases "load_bundled_index (bundled_files w) (skills st)")
    have d1: "\<forall>s \<in> set (dict_values d1). record_invariant s"
      using load_bundled_index_preserves[OF assms(2) assms(4)] lb by simp
    have "skills st2 = (if force_refresh \<or> \<not> b then refresh_from_registries w (registries st) d1 else d1)"
      using assms(1) Inr None lb by (auto simp: load_index_def Let_def)
    then show ?thesis
      using d1 refresh_from_registries_invariant[OF d1] by simp
  qed
qed

text \<open>
  A load over the network from two registries, with no cache and no bundled index: the
  one record it indexes satisfies the invariants.
\<close>

theorem load_index_keeps_invariants_witness:
  "skills_after (load_index two_registry_world two_registries False) = [skill_lo]
   \<and> list_all record_invariant (skills_after (load_index two_registry_world two_registries False))"
proof -
  have v: "skills_after (load_index two_registry_world two_registries False) = [skill_lo]"
    by code_simp
  have "\<exists>w2 st2 n. load_index two_registry_world two_registries False = Inr (w2, st2, n)"
    by (simp add: load_index_def read_cache_def two_registry_world_def Let_def split: prod.splits)
  then obtain w2 st2 n where l: "load_index two_registry_world two_registries False = Inr (w2, st2, n)"
    by blast
  have h1: "\<forall>s \<in> set (dict_values (skills two_registries)). record_invariant s"
    by (simp add: two_registries_def dict_values_def)
  have h2: "\<forall>s \<in> set (cache_records two_registry_world). record_invariant s"
    by (simp add: cache_records_def two_registry_world_def)
  have h3: "\<forall>s \<in> set (bundled_records (bundled_files two_registry_world)). record_invariant s"
    by (simp add: two_registry_world_def)
  have "\<forall>s \<in> set (dict_values (skills st2)). record_invariant s"
    by (rule load_index_keeps_invariants[OF l h1 h2 h3])
  moreover have "skills_after (load_index two_registry_world two_registries False) = dict_values (skills st2)"
    using l by (simp add: skills_after_def)
  ultimately have "list_all record_invariant (skills_after (load_index two_registry_world two_registries False))"
    by (simp add: list_all_iff)
  with v show ?thesis by blast
qed

subsection \<open>Two registries that define the same skill\<close>






lemma set_dict_set_subset: "set (dict_set d k v) \<subseteq> insert (k, v) (set d)"
  by (induction d) (force split: if_splits)+

lemma index_directories_wellformed:
  assumes "distinct (map fst d)" "\<forall>p \<in> set d. name (snd p) = fst p"
  shows "distinct (map fst (index_directories w reg dirs d))
         \<and> (\<forall>p \<in> set (index_directories w reg dirs d). name (snd p) = fst p)"
  using assms
proof (induction dirs arbitrary: d)
  case Nil
  then show ?case by simp
next
  case (Cons dir_name dirs)
  show ?case
  proof (cases "skill_of_directory w reg dir_name")
    case None
    then show ?thesis using Cons by simp
  next
    case (Some skill)
    have d1: "distinct (map fst (dict_set d (name skill) skill))"
      using Cons.prems(1) by (rule dict_set_distinct)
    have "set (dict_set d (name skill) skill) \<subseteq> insert (name skill, skill) (set d)"
      by (rule set_dict_set_subset)
    then have d2: "\<forall>p \<in> set (dict_set d (name skill) skill). name (snd p) = fst p"
      using Cons.prems(2) by auto
    show ?thesis
      using Some Cons.IH[OF d1 d2] Cons.IH[OF Cons.prems] by simp
  qed
qed

lemma index_registries_wellformed:
  assumes "distinct (map fst d)" "\<forall>p \<in> set d. name (snd p) = fst p"
  shows "distinct (map fst (index_registries w regs d))
         \<and> (\<forall>p \<in> set (index_registries w regs d). name (snd p) = fst p)"
  using assms
proof (induction regs arbitrary: d)
  case Nil
  then show ?case by simp
next
  case (Cons reg regs)
  have g: "distinct (map fst (index_github_registry w d reg))
         \<and> (\<forall>p \<in> set (index_github_registry w d reg). name (snd p) = fst p)"
    unfolding index_github_registry_def using Cons.prems by (rule index_directories_wellformed)
  show ?case
  proof (cases "reg_type reg = ''github''")
    case True
    then show ?thesis using Cons.IH[OF conjunct1[OF g] conjunct2[OF g]] by simp
  next
    case False
    then show ?thesis using Cons.IH[OF Cons.prems] by simp
  qed
qed


lemma dict_set_wellformed:
  assumes "distinct (map fst d)" "\<forall>p \<in> set d. name (snd p) = fst p"
  shows "distinct (map fst (dict_set d (name s) s))
         \<and> (\<forall>p \<in> set (dict_set d (name s) s). name (snd p) = fst p)"
proof -
  have "set (dict_set d (name s) s) \<subseteq> insert (name s, s) (set d)"
    by (rule set_dict_set_subset)
  then have "\<forall>p \<in> set (dict_set d (name s) s). name (snd p) = fst p"
    using assms(2) by auto
  then show ?thesis using dict_set_distinct[OF assms(1)] by blast
qed

lemma insert_bundled_wellformed:
  assumes "distinct (map fst d)" "\<forall>p \<in> set d. name (snd p) = fst p"
  shows "distinct (map fst (insert_bundled es d))
         \<and> (\<forall>p \<in> set (insert_bundled es d). name (snd p) = fst p)"
  using assms
proof (induction es d rule: insert_bundled.induct)
  case (1 d)
  then show ?case by simp
next
  case (2 rest d)
  then show ?case by simp
next
  case (3 b rest d)
  have w: "distinct (map fst (dict_set d (name (skill_of_bundled b)) (skill_of_bundled b)))
         \<and> (\<forall>p \<in> set (dict_set d (name (skill_of_bundled b)) (skill_of_bundled b)). name (snd p) = fst p)"
    using "3.prems" by (rule dict_set_wellformed)
  show ?case
    using "3.IH"[OF conjunct1[OF w] conjunct2[OF w]] by simp
qed

lemma load_bundled_index_wellformed:
  assumes "distinct (map fst d)" "\<forall>p \<in> set d. name (snd p) = fst p"
  shows "distinct (map fst (fst (load_bundled_index fs d)))
         \<and> (\<forall>p \<in> set (fst (load_bundled_index fs d)). name (snd p) = fst p)"
  using assms
proof (induction fs d rule: load_bundled_index.induct)
  case (1 d)
  then show ?case by simp
next
  case (2 rest d)
  then show ?case by simp
next
  case (3 rest d)
  then show ?case by simp
next
  case (4 entries rest d)
  show ?case
    using insert_bundled_wellformed[OF "4.prems", of "case entries of None \<Rightarrow> [] | Some es \<Rightarrow> es"]
    by simp
qed





lemma insert_skills_wellformed:
  assumes "distinct (map fst d)" "\<forall>p \<in> set d. name (snd p) = fst p"
  shows "distinct (map fst (insert_skills xs d))
         \<and> (\<forall>p \<in> set (insert_skills xs d). name (snd p) = fst p)"
  using assms
proof (induction xs arbitrary: d)
  case Nil
  then show ?case by simp
next
  case (Cons a xs)
  have w: "distinct (map fst (dict_set d (name a) a))
         \<and> (\<forall>p \<in> set (dict_set d (name a) a). name (snd p) = fst p)"
    using Cons.prems by (rule dict_set_wellformed)
  show ?case
    using Cons.IH[OF conjunct1[OF w] conjunct2[OF w]] by simp
qed

text \<open>
  Every key of the index is the name of its record, and no key stands twice: this holds
  of the empty index a registry starts with, and every load keeps it.
\<close>

lemma load_index_wellformed:
  assumes "load_index w st force_refresh = Inr (w2, st2, n)"
    and "distinct (map fst (skills st))" "\<forall>p \<in> set (skills st). name (snd p) = fst p"
  shows "distinct (map fst (skills st2)) \<and> (\<forall>p \<in> set (skills st2). name (snd p) = fst p)"
proof (cases "if \<not> force_refresh then read_cache w (skills st) else Inr None")
  case (Inl e)
  then show ?thesis using assms(1) by (simp add: load_index_def)
next
  case (Inr hit)
  show ?thesis
  proof (cases hit)
    case (Some d)
    then have "read_cache w (skills st) = Inr (Some d)"
      using Inr by (auto split: if_splits)
    then obtain cache where "cache_file w = Json cache"
      and d: "d = insert_skills (case cached_skills cache of None \<Rightarrow> [] | Some xs \<Rightarrow> xs) (skills st)"
      unfolding read_cache_def
      by (auto split: json_file.splits option.splits prod.splits if_splits)
    have "skills st2 = d"
      using assms(1) Inr Some by (auto simp: load_index_def)
    then show ?thesis
      unfolding d using assms(2,3) by (simp add: insert_skills_wellformed)
  next
    case None
    obtain d1 b where lb: "load_bundled_index (bundled_files w) (skills st) = (d1, b)"
      by (cases "load_bundled_index (bundled_files w) (skills st)")
    have d1: "distinct (map fst d1) \<and> (\<forall>p \<in> set d1. name (snd p) = fst p)"
      using load_bundled_index_wellformed[OF assms(2,3), of "bundled_files w"] lb by simp
    have d2: "distinct (map fst (refresh_from_registries w (registries st) d1))
              \<and> (\<forall>p \<in> set (refresh_from_registries w (registries st) d1). name (snd p) = fst p)"
      unfolding refresh_from_registries_def
      using d1 by (intro index_registries_wellformed) blast+
    have "skills st2 = (if force_refresh \<or> \<not> b then refresh_from_registries w (registries st) d1 else d1)"
      using assms(1) Inr None lb by (auto simp: load_index_def Let_def)
    then show ?thesis using d1 d2 by simp
  qed
qed




subsection \<open>A forced refresh\<close>

lemma load_bundled_index_unreadable:
  "\<forall>f \<in> set fs. f = NoFile \<or> f = NotJson \<Longrightarrow> load_bundled_index fs d = (d, False)"
  by (induction fs d rule: load_bundled_index.induct) simp_all

lemma fetch_skill_md_cache_file:
  "fetch_skill_md (w\<lparr>cache_file := c\<rparr>) own rp nm br = fetch_skill_md w own rp nm br"
  by (simp add: fetch_skill_md_def)

lemma parse_github_tree_cache_file:
  "parse_github_tree (w\<lparr>cache_file := c\<rparr>) own rp br = parse_github_tree w own rp br"
  by (simp add: parse_github_tree_def cong: option.case_cong if_cong)

lemma skill_of_directory_cache_file:
  "skill_of_directory (w\<lparr>cache_file := c\<rparr>) reg dir_name = skill_of_directory w reg dir_name"
  unfolding skill_of_directory_def fetch_skill_md_cache_file by (rule refl)

lemma index_directories_cache_file:
  "index_directories (w\<lparr>cache_file := c\<rparr>) reg dirs d = index_directories w reg dirs d"
proof (induction dirs arbitrary: d)
  case Nil
  then show ?case by simp
next
  case (Cons dir_name dirs)
  then show ?case
    by (cases "skill_of_directory w reg dir_name") (simp_all add: skill_of_directory_cache_file)
qed

lemma index_github_registry_cache_file:
  "index_github_registry (w\<lparr>cache_file := c\<rparr>) d reg = index_github_registry w d reg"
  unfolding index_github_registry_def parse_github_tree_cache_file index_directories_cache_file
  by (rule refl)

lemma index_registries_cache_file:
  "index_registries (w\<lparr>cache_file := c\<rparr>) regs d = index_registries w regs d"
  by (induction regs arbitrary: d) (simp_all add: index_github_registry_cache_file)

lemma refresh_from_registries_cache_file:
  "refresh_from_registries (w\<lparr>cache_file := c\<rparr>) regs d = refresh_from_registries w regs d"
  by (simp add: refresh_from_registries_def index_registries_cache_file)

lemma refresh_unfold:
  "refresh w st =
     (let d = refresh_from_registries w (registries st) (fst (load_bundled_index (bundled_files w) []))
      in Inr (if d \<noteq> [] then save_cache w d else w, st\<lparr>skills := d, index_loaded := True\<rparr>, length d))"
  by (simp add: refresh_def load_index_def Let_def split: prod.splits)

text \<open>
  Claim C4 says that after a forced refresh the loaded state is exactly the state loaded
  from the network. \<open>load_index\<close> loads the bundled index before it goes to the
  registries, on a forced refresh too, and a registry's record never replaces a record
  that is there: with a bundled index that holds \<open>pdf-maker\<close>, the refreshed index holds
  the two bundled records and not the record the network gives.
\<close>

theorem refresh_counterexample:
  "skills_after (refresh bundled_world two_registries)
     = [skill_of_bundled bundled_nameless, skill_of_bundled bundled_pdf]
   \<and> dict_values (refresh_from_registries bundled_world (registries two_registries) []) = [skill_lo]"
  by code_simp

text \<open>
  Claim C4 as amended. A forced refresh clears the skills in memory and, whatever the
  cache file holds, loads the bundled index where one is readable and then indexes the
  registries over the network in ascending priority order, adding the names that are
  not there yet; the index, when it is not empty, is written to the cache. Where no
  bundled index is readable the loaded state is exactly the state built from the
  network: what the loop over the registries leaves of an empty index.
\<close>

theorem refresh_rebuilds:
  "(let d = refresh_from_registries w (registries st) (fst (load_bundled_index (bundled_files w) []))
    in refresh w st
         = Inr (if d \<noteq> [] then save_cache w d else w, st\<lparr>skills := d, index_loaded := True\<rparr>, length d)
       \<and> ((\<forall>f \<in> set (bundled_files w). f = NoFile \<or> f = NotJson) \<longrightarrow> d = refresh_from_registries w (registries st) []))
   \<and> skills_after (refresh (w\<lparr>cache_file := c\<rparr>) st) = skills_after (refresh w st)"
proof -
  have a: "(\<forall>f \<in> set (bundled_files w). f = NoFile \<or> f = NotJson) \<longrightarrow>
        refresh_from_registries w (registries st) (fst (load_bundled_index (bundled_files w) []))
          = refresh_from_registries w (registries st) []"
    by (simp add: load_bundled_index_unreadable)
  have b: "skills_after (refresh (w\<lparr>cache_file := c\<rparr>) st) = skills_after (refresh w st)"
    by (simp add: refresh_unfold skills_after_def Let_def refresh_from_registries_cache_file)
  show ?thesis
    using a b refresh_unfold[of w st] by (simp add: Let_def)
qed

text \<open>
  A refresh of a registry that holds a stale record, in a world without a bundled index:
  the index is the one the registries give.
\<close>

theorem refresh_rebuilds_witness:
  "skills_after (refresh two_registry_world (two_registries\<lparr>skills := [(''old'', plain_skill ''old'' [] [])]\<rparr>))
     = dict_values (refresh_from_registries two_registry_world [registry_hi, registry_lo] [])
   \<and> dict_values (refresh_from_registries two_registry_world [registry_hi, registry_lo] []) = [skill_lo]"
proof -
  have n: "dict_values (refresh_from_registries two_registry_world [registry_hi, registry_lo] []) = [skill_lo]"
    by code_simp
  have f: "\<forall>f \<in> set (bundled_files two_registry_world). f = NoFile \<or> f = NotJson"
    by (simp add: two_registry_world_def)
  have r: "registries (two_registries\<lparr>skills := [(''old'', plain_skill ''old'' [] [])]\<rparr>) = [registry_hi, registry_lo]"
    by (simp add: two_registries_def)
  have "skills_after (refresh two_registry_world (two_registries\<lparr>skills := [(''old'', plain_skill ''old'' [] [])]\<rparr>))
     = dict_values (refresh_from_registries two_registry_world [registry_hi, registry_lo] [])"
    using refresh_rebuilds[of two_registry_world "two_registries\<lparr>skills := [(''old'', plain_skill ''old'' [] [])]\<rparr>"] f r
    by (simp add: Let_def skills_after_def)
  with n show ?thesis by simp
qed

section \<open>Properties of the cache\<close>

lemma length_zpad: "length (zpad k n) = k"
  by (induction k n rule: zpad.induct) simp_all

lemma set_zpad: "set (zpad k n) \<subseteq> set digit_chars"
proof (induction k n rule: zpad.induct)
  case (1 n)
  then show ?case by simp
next
  case (2 k n)
  have "nat (n mod 10) < length digit_chars" by (simp add: digit_chars_def)
  then have "digit_chars ! nat (n mod 10) \<in> set digit_chars" by (rule nth_mem)
  then show ?case using 2 by simp
qed

lemma zpad_no_marks:
  "CHR ''Z'' \<notin> set (zpad k n)" "CHR ''-'' \<notin> set (zpad k n)" "CHR ''+'' \<notin> set (zpad k n)"
  using set_zpad[of k n] by (auto simp: digit_chars_def)

lemma replace_char_append:
  "replace_char c r (a @ b) = replace_char c r a @ replace_char c r b"
  by (simp add: replace_char_def)

lemma replace_char_absent: "c \<notin> set s \<Longrightarrow> replace_char c r s = s"
  by (induction s) (auto simp: replace_char_def)

lemma find_char_absent: "c \<notin> set s \<Longrightarrow> find_char c s = None"
  by (simp add: find_char_def)

lemma find_char_first:
  assumes "c \<notin> set a"
  shows "find_char c (a @ c # b) = Some (length a)"
proof -
  have "takeWhile (\<lambda>d. d \<noteq> c) (a @ c # b) = a @ takeWhile (\<lambda>d. d \<noteq> c) (c # b)"
    using assms by (intro takeWhile_append2) auto
  then show ?thesis by (simp add: find_char_def)
qed

lemma parse_isoformat_time_two_offsets:
  assumes "CHR ''-'' \<notin> set tm" "CHR ''+'' \<notin> set tm"
  shows "parse_isoformat_time (tm @ ''+00:00+00:00'') = None"
proof -
  have m: "find_char (CHR ''-'') (tm @ ''+00:00+00:00'') = None"
    using assms(1) by (intro find_char_absent) simp
  have p: "find_char (CHR ''+'') (tm @ ''+00:00+00:00'') = Some (length tm)"
    using find_char_first[OF assms(2), of "''00:00+00:00''"] by simp
  show ?thesis
    unfolding parse_isoformat_time_def Let_def m p
    by (simp split: option.splits)
qed

lemma fromisoformat_two_offsets:
  assumes "length dte = 10" "CHR ''-'' \<notin> set tm" "CHR ''+'' \<notin> set tm"
  shows "fromisoformat (dte @ sep # tm @ ''+00:00+00:00'') = None"
proof -
  have t: "take 10 (dte @ sep # tm @ ''+00:00+00:00'') = dte"
    using assms(1) by simp
  have d: "drop 11 (dte @ sep # tm @ ''+00:00+00:00'') = tm @ ''+00:00+00:00''"
    using assms(1) by simp
  show ?thesis
    unfolding fromisoformat_def t d
    by (simp add: parse_isoformat_time_two_offsets[OF assms(2,3)] split: option.splits prod.splits)
qed

lemma saved_stamp_refused:
  "fromisoformat (replace_char (CHR ''Z'') ''+00:00'' (isoformat_utc dt @ ''Z'')) = None"
proof -
  define dte where "dte = zpad 4 (year dt) @ ''-'' @ zpad 2 (month dt) @ ''-'' @ zpad 2 (day dt)"
  define tm where "tm = zpad 2 (hour dt) @ '':'' @ zpad 2 (minute dt) @ '':'' @ zpad 2 (second dt)
     @ (if microsecond dt \<noteq> 0 then ''.'' @ zpad 6 (microsecond dt) else [])"
  have iso: "isoformat_utc dt = dte @ CHR ''T'' # tm @ ''+00:00''"
    unfolding isoformat_utc_def dte_def tm_def by simp
  have len: "length dte = 10"
    unfolding dte_def by (simp add: length_zpad)
  have tm_marks: "CHR ''Z'' \<notin> set tm" "CHR ''-'' \<notin> set tm" "CHR ''+'' \<notin> set tm"
    unfolding tm_def by (simp_all add: zpad_no_marks)
  have dte_z: "CHR ''Z'' \<notin> set dte"
    unfolding dte_def by (simp add: zpad_no_marks)
  have "CHR ''Z'' \<notin> set (isoformat_utc dt)"
    unfolding iso using tm_marks(1) dte_z by simp
  then have "replace_char (CHR ''Z'') ''+00:00'' (isoformat_utc dt @ ''Z'')
      = isoformat_utc dt @ ''+00:00''"
    by (simp add: replace_char_append replace_char_absent) (simp add: replace_char_def)
  also have "\<dots> = dte @ CHR ''T'' # tm @ ''+00:00+00:00''"
    unfolding iso by simp
  finally show ?thesis
    using fromisoformat_two_offsets[OF len tm_marks(2,3)] by simp
qed

lemma dict_set_new: "k \<notin> fst ` set acc \<Longrightarrow> dict_set acc k v = acc @ [(k, v)]"
  by (induction acc) auto

lemma insert_skills_restores:
  assumes "distinct (map fst d)" "\<forall>p \<in> set d. name (snd p) = fst p" "fst ` set acc \<inter> fst ` set d = {}"
  shows "insert_skills (dict_values d) acc = acc @ d"
  using assms
proof (induction d arbitrary: acc)
  case Nil
  then show ?case by (simp add: dict_values_def)
next
  case (Cons p d)
  obtain k s where p: "p = (k, s)" by (cases p)
  have ks: "name s = k" using Cons.prems(2) p by simp
  have new: "k \<notin> fst ` set acc" using Cons.prems(3) p by auto
  have step: "dict_set acc (name s) s = acc @ [(k, s)]"
    using dict_set_new[OF new] ks by simp
  have disj: "fst ` set (acc @ [(k, s)]) \<inter> fst ` set d = {}"
    using Cons.prems(1,3) p by auto
  have "insert_skills (dict_values d) (acc @ [(k, s)]) = (acc @ [(k, s)]) @ d"
    using Cons.IH[OF _ _ disj] Cons.prems(1,2) by simp
  then show ?case using p step by (simp add: dict_values_def)
qed

text \<open>
  The reading side is sound: a cache whose stamp \<open>fromisoformat\<close> accepts, with an offset
  and less than a day old, gives back the index it was written from.
\<close>

lemma fresh_cache_restores_index:
  assumes "cache_file w = Json cache" "cached_skills cache = Some (dict_values d)"
    and "fromisoformat (replace_char (CHR ''Z'') ''+00:00''
           (case updated cache of None \<Rightarrow> ''2000-01-01T00:00:00Z'' | Some u \<Rightarrow> u)) = Some (t, Some off)"
    and "to_microseconds (now w) - (to_microseconds t - off) < 86400 * 1000000"
    and "distinct (map fst d)" "\<forall>p \<in> set d. name (snd p) = fst p"
  shows "read_cache w [] = Inr (Some d)"
proof -
  have "insert_skills (dict_values d) [] = [] @ d"
    using assms(5,6) by (intro insert_skills_restores) simp_all
  then show ?thesis
    using assms(1-4) by (simp add: read_cache_def)
qed

text \<open>
  Claim C1 says that saving the index and loading it within the day gives the same
  records back. The stamp \<open>_save_cache\<close> writes is the text of \<open>isoformat()\<close>, which for
  a time in UTC already ends in \<open>+00:00\<close>, followed by \<open>Z\<close>; \<open>load_index\<close> replaces the \<open>Z\<close>
  by \<open>+00:00\<close>, and \<open>fromisoformat\<close> refuses a time with two offsets. The \<open>ValueError\<close> is
  swallowed, so for every clock and every index the cache branch is left without
  reading the records the file holds, and the load goes on to the bundled index and the
  network.
\<close>

theorem saved_cache_is_never_read:
  "read_cache (save_cache w d) d0 = Inr None
   \<and> cache_records (save_cache w d) = dict_values d"
  by (simp add: read_cache_def save_cache_def cache_records_def saved_stamp_refused)

text \<open>
  An index of one record saved at 14:30:05 and loaded at the same instant by a new
  registry, with no bundled index and no network: the file holds the record, and the
  loaded index is empty.
\<close>

theorem saved_cache_is_never_read_witness:
  "cache_file (save_cache offline_world [(''pdf-maker'', skill_lo)])
     = Json \<lparr>version = ''1.0'', updated = Some ''2026-11-03T14:30:05+00:00Z'', skill_count = 1,
              cached_skills = Some [skill_lo]\<rparr>
   \<and> read_cache (save_cache offline_world [(''pdf-maker'', skill_lo)]) [] = Inr None
   \<and> skills_after (load_index (save_cache offline_world [(''pdf-maker'', skill_lo)]) init_registry False) = []"
proof -
  have u: "cache_file (save_cache offline_world [(''pdf-maker'', skill_lo)])
     = Json \<lparr>version = ''1.0'', updated = Some ''2026-11-03T14:30:05+00:00Z'', skill_count = 1,
              cached_skills = Some [skill_lo]\<rparr>"
    by code_simp
  have l: "skills_after (load_index (save_cache offline_world [(''pdf-maker'', skill_lo)]) init_registry False) = []"
    by code_simp
  show ?thesis
    using u l saved_cache_is_never_read[of offline_world "[(''pdf-maker'', skill_lo)]" "[]"]
    by simp
qed

text \<open>
  A cache stamped the way the specification writes it, ending in \<open>Z\<close> with no offset
  before it, is read within the day and skipped after it.
\<close>

lemma well_stamped_cache_is_read:
  "read_cache (offline_world\<lparr>cache_file := Json \<lparr>version = ''1.0'', updated = Some ''2026-11-03T14:30:05Z'',
        skill_count = 1, cached_skills = Some [skill_lo]\<rparr>\<rparr>) []
     = Inr (Some [(''pdf-maker'', skill_lo)])"
  by code_simp

lemma stale_cache_is_skipped:
  "read_cache (offline_world\<lparr>cache_file := Json \<lparr>version = ''1.0'', updated = Some ''2026-11-01T14:30:05Z'',
        skill_count = 1, cached_skills = Some [skill_lo]\<rparr>\<rparr>) []
     = Inr None"
  by code_simp

end
